theory Spec2Isabelle
  imports Main
begin

section \<open>Values of the toolkit: colours, variants, JSON\<close>

text \<open>
  A colour is either a valid RGBA quadruple or the invalid colour (what a default-constructed
  \<^verbatim>\<open>QColor\<close> is, and what the constructor yields when a channel is outside 0..255).
\<close>

datatype QColor = Rgba int int int int | InvalidColor

definition QColor4 :: "int \<Rightarrow> int \<Rightarrow> int \<Rightarrow> int \<Rightarrow> QColor" where
  "QColor4 r g b a =
     (if 0 \<le> r \<and> r \<le> 255 \<and> 0 \<le> g \<and> g \<le> 255 \<and> 0 \<le> b \<and> b \<le> 255 \<and> 0 \<le> a \<and> a \<le> 255
      then Rgba r g b a else InvalidColor)"

text \<open>The three-argument constructor: alpha defaults to 255.\<close>

definition QColor3 :: "int \<Rightarrow> int \<Rightarrow> int \<Rightarrow> QColor" where
  "QColor3 r g b = QColor4 r g b 255"

fun red :: "QColor \<Rightarrow> int" where
  "red (Rgba r g b a) = r"
| "red InvalidColor = 0"

fun green :: "QColor \<Rightarrow> int" where
  "green (Rgba r g b a) = g"
| "green InvalidColor = 0"

fun blue :: "QColor \<Rightarrow> int" where
  "blue (Rgba r g b a) = b"
| "blue InvalidColor = 0"

fun alpha :: "QColor \<Rightarrow> int" where
  "alpha (Rgba r g b a) = a"
| "alpha InvalidColor = 255"

text \<open>Colours are kept in RGB only, so the conversion to RGB changes nothing.\<close>

definition toRgb :: "QColor \<Rightarrow> QColor" where
  "toRgb c = c"

text \<open>
  The variant type, restricted to the kinds of value this file stores or reads:
  booleans, ints, strings and colours, and the invalid (empty) variant.
\<close>

datatype QVariant = VInvalid | VBool bool | VInt int | VString string | VColor QColor

datatype QVariantType = TInvalid | TBool | TInt | TString | TColor

fun qvariant_type :: "QVariant \<Rightarrow> QVariantType" where
  "qvariant_type VInvalid = TInvalid"
| "qvariant_type (VBool b) = TBool"
| "qvariant_type (VInt i) = TInt"
| "qvariant_type (VString s) = TString"
| "qvariant_type (VColor c) = TColor"

subsection \<open>Conversions of a variant\<close>

definition digit_char :: "nat \<Rightarrow> char" where
  "digit_char n = ''0123456789abcdef'' ! (n mod 16)"

fun nat_to_string :: "nat \<Rightarrow> string" where
  "nat_to_string n =
     (if n < 10 then [digit_char n] else nat_to_string (n div 10) @ [digit_char (n mod 10)])"

definition int_to_string :: "int \<Rightarrow> string" where
  "int_to_string i = (if i < 0 then CHR ''-'' # nat_to_string (nat (- i)) else nat_to_string (nat i))"

definition hex2 :: "int \<Rightarrow> string" where
  "hex2 i = [digit_char (nat i div 16), digit_char (nat i mod 16)]"

text \<open>The name of a colour: \<^verbatim>\<open>#rrggbb\<close>, or \<^verbatim>\<open>#aarrggbb\<close> when it is not opaque.\<close>

definition color_name :: "QColor \<Rightarrow> string" where
  "color_name c =
     (if alpha c \<noteq> 255
      then CHR ''#'' # hex2 (alpha c) @ hex2 (red c) @ hex2 (green c) @ hex2 (blue c)
      else CHR ''#'' # hex2 (red c) @ hex2 (green c) @ hex2 (blue c))"

fun toString :: "QVariant \<Rightarrow> string" where
  "toString VInvalid = []"
| "toString (VBool b) = (if b then ''true'' else ''false'')"
| "toString (VInt i) = int_to_string i"
| "toString (VString s) = s"
| "toString (VColor c) = color_name c"

definition is_space :: "char \<Rightarrow> bool" where
  "is_space c = (c \<in> set [CHR '' '', CHR 0x09, CHR 0x0A, CHR 0x0B, CHR 0x0C, CHR 0x0D])"

definition trimmed :: "string \<Rightarrow> string" where
  "trimmed s = rev (dropWhile is_space (rev (dropWhile is_space s)))"

definition digit_val :: "char \<Rightarrow> nat option" where
  "digit_val c =
     (let n = (of_char c :: nat) in if 48 \<le> n \<and> n \<le> 57 then Some (n - 48) else None)"

fun parse_digits :: "nat \<Rightarrow> string \<Rightarrow> nat option" where
  "parse_digits acc [] = Some acc"
| "parse_digits acc (c # cs) =
     (case digit_val c of None \<Rightarrow> None | Some d \<Rightarrow> parse_digits (10 * acc + d) cs)"

definition parse_nat :: "string \<Rightarrow> nat option" where
  "parse_nat s = (if s = [] then None else parse_digits 0 s)"

text \<open>
  A string variant read as an \<^verbatim>\<open>int\<close>: the string is parsed as a 64-bit decimal number
  (surrounding white space, an optional sign, digits; anything else, and a number outside
  the 64-bit range, gives 0), and the number is then cut down to its low 32 bits, read as
  a signed value.
\<close>

definition string_toInt :: "string \<Rightarrow> int" where
  "string_toInt s =
     (let t = trimmed s;
          r = (case t of
                 [] \<Rightarrow> None
               | c # cs \<Rightarrow>
                   (if c = CHR ''-'' then map_option (\<lambda>n. - int n) (parse_nat cs)
                    else if c = CHR ''+'' then map_option int (parse_nat cs)
                    else map_option int (parse_nat t)))
      in case r of
           None \<Rightarrow> 0
         | Some i \<Rightarrow>
             (if - 9223372036854775808 \<le> i \<and> i \<le> 9223372036854775807
              then (i + 2147483648) mod 4294967296 - 2147483648 else 0))"

fun toInt :: "QVariant \<Rightarrow> int" where
  "toInt VInvalid = 0"
| "toInt (VBool b) = (if b then 1 else 0)"
| "toInt (VInt i) = i"
| "toInt (VString s) = string_toInt s"
| "toInt (VColor c) = 0"

definition ascii_lower :: "char \<Rightarrow> char" where
  "ascii_lower c =
     (let n = (of_char c :: nat) in if 65 \<le> n \<and> n \<le> 90 then char_of (n + 32) else c)"

fun toBool :: "QVariant \<Rightarrow> bool" where
  "toBool VInvalid = False"
| "toBool (VBool b) = b"
| "toBool (VInt i) = (i \<noteq> 0)"
| "toBool (VString s) =
     (let str = map ascii_lower s in \<not> (str = ''0'' \<or> str = ''false'' \<or> str = []))"
| "toBool (VColor c) = False"

text \<open>
  The conversion of a variant to a colour. A string is parsed as a colour name by the
  toolkit; that table is a parameter here (\<open>namedColor\<close>).
\<close>

fun toColor :: "(string \<Rightarrow> QColor) \<Rightarrow> QVariant \<Rightarrow> QColor" where
  "toColor namedColor (VColor c) = c"
| "toColor namedColor (VString s) = namedColor s"
| "toColor namedColor v = InvalidColor"

text \<open>
  JSON values as the colour-theme reader hands them over. Numbers are integers; \<open>JOther\<close>
  stands for the kinds that are neither an array nor an integral number.
\<close>

datatype QJsonValue = JInt int | JArray "QJsonValue list" | JOther

fun toArray :: "QJsonValue \<Rightarrow> QJsonValue list" where
  "toArray (JArray xs) = xs"
| "toArray v = []"

fun json_toInt :: "QJsonValue \<Rightarrow> int" where
  "json_toInt (JInt i) = i"
| "json_toInt v = 0"


section \<open>The registry of interface themes and the option catalog\<close>

text \<open>
  Modelled from the spec: the enum \<^verbatim>\<open>ColorFlags\<close> and the struct \<^verbatim>\<open>CutterInterfaceTheme\<close>
  are declared in \<^verbatim>\<open>Configuration.h\<close>, which is not among the sources. The spec gives an
  interface theme as a name with the set of appearances (Light, Dark) it supports; a
  flag value says which of the two appearances are in the set, and \<open>or_flags\<close> is the
  bitwise or of two flag values.
\<close>

datatype ColorFlags = ColorFlags (hasLight: bool) (hasDark: bool)

definition LightFlag :: ColorFlags where
  "LightFlag = ColorFlags True False"

definition DarkFlag :: ColorFlags where
  "DarkFlag = ColorFlags False True"

definition or_flags :: "ColorFlags \<Rightarrow> ColorFlags \<Rightarrow> ColorFlags" where
  "or_flags a b = ColorFlags (hasLight a \<or> hasLight b) (hasDark a \<or> hasDark b)"

datatype CutterInterfaceTheme = CutterInterfaceTheme (name: string) (flag: ColorFlags)

definition kCutterInterfaceThemesList :: "CutterInterfaceTheme list" where
  "kCutterInterfaceThemesList =
     [ CutterInterfaceTheme ''Native'' (or_flags LightFlag DarkFlag),
       CutterInterfaceTheme ''Dark'' DarkFlag,
       CutterInterfaceTheme ''Light'' LightFlag ]"

text \<open>
  All asm.* options saved as settings; the values are the defaults. The source keeps them
  in a hash table with these thirty distinct keys; the loops over it run here in the order
  of this list.
\<close>

definition asmOptions :: "(string \<times> QVariant) list" where
  "asmOptions =
     [ (''asm.esil'', VBool False),
       (''asm.pseudo'', VBool False),
       (''asm.offset'', VBool True),
       (''asm.xrefs'', VBool False),
       (''asm.indent'', VBool False),
       (''asm.describe'', VBool False),
       (''asm.slow'', VBool True),
       (''asm.lines'', VBool True),
       (''asm.lines.fcn'', VBool True),
       (''asm.flags.offset'', VBool False),
       (''asm.emu'', VBool False),
       (''asm.cmt.right'', VBool True),
       (''asm.cmt.col'', VInt 35),
       (''asm.var.summary'', VBool False),
       (''asm.bytes'', VBool False),
       (''asm.size'', VBool False),
       (''asm.bytespace'', VBool False),
       (''asm.lbytes'', VBool True),
       (''asm.nbytes'', VInt 10),
       (''asm.syntax'', VString ''intel''),
       (''asm.ucase'', VBool False),
       (''asm.bb.line'', VBool False),
       (''asm.capitalize'', VBool False),
       (''asm.var.sub'', VBool True),
       (''asm.var.subonly'', VBool True),
       (''asm.tabs'', VInt 5),
       (''asm.tabs.off'', VInt 5),
       (''asm.marks'', VBool False),
       (''esil.breakoninvalid'', VBool True),
       (''graph.offset'', VBool False) ]"

section \<open>The state the facade works on\<close>

record QPalette =
  Window :: QColor
  Text :: QColor

record QApplication =
  palette :: QPalette
  styleSheet :: string
  allWidgets :: "QPalette list"

text \<open>
  Modelled from the spec: the external option engine (\<^verbatim>\<open>Core()\<close>) is not among the
  sources. The spec gives it as a separately-owned configuration namespace addressed by
  dotted string keys, with get/set of a typed option by key, and as the receiver of string
  commands. Here it is the map of its options and the list of the commands it received.
\<close>

record CutterCore =
  config :: "string \<rightharpoonup> QVariant"
  cmds :: "string list"

definition Core_setConfig :: "string \<Rightarrow> QVariant \<Rightarrow> CutterCore \<Rightarrow> CutterCore" where
  "Core_setConfig k v e = e\<lparr>config := (config e)(k \<mapsto> v)\<rparr>"

definition Core_cmd :: "string \<Rightarrow> CutterCore \<Rightarrow> CutterCore" where
  "Core_cmd str e = e\<lparr>cmds := cmds e @ [str]\<rparr>"

definition Core_read :: "CutterCore \<Rightarrow> string \<Rightarrow> QVariant" where
  "Core_read e k = (case config e k of None \<Rightarrow> VInvalid | Some v \<Rightarrow> v)"

definition Core_getConfigb :: "CutterCore \<Rightarrow> string \<Rightarrow> bool" where
  "Core_getConfigb e k = toBool (Core_read e k)"

definition Core_getConfigi :: "CutterCore \<Rightarrow> string \<Rightarrow> int" where
  "Core_getConfigi e k = toInt (Core_read e k)"

definition Core_getConfig :: "CutterCore \<Rightarrow> string \<Rightarrow> string" where
  "Core_getConfig e k = toString (Core_read e k)"

datatype signal = InterfaceThemeChanged | ColorsUpdated | FontsUpdated

text \<open>
  The facade: its settings object (the member \<^verbatim>\<open>s\<close>, the durable store), the palette saved
  at construction, and what it acts on: the application, the engine, the signals emitted so
  far, the warnings logged so far, and the resource files that exist (path to content).
\<close>

record Configuration =
  settings :: "string \<rightharpoonup> QVariant"
  nativePalette :: QPalette
  qApp :: QApplication
  core :: CutterCore
  emitted :: "signal list"
  warnings :: "string list"
  resources :: "string \<rightharpoonup> string"
  os_macx :: bool

definition s_contains :: "Configuration \<Rightarrow> string \<Rightarrow> bool" where
  "s_contains c k = (settings c k \<noteq> None)"

definition s_value :: "Configuration \<Rightarrow> string \<Rightarrow> QVariant \<Rightarrow> QVariant" where
  "s_value c k d = (case settings c k of None \<Rightarrow> d | Some v \<Rightarrow> v)"

definition s_setValue :: "string \<Rightarrow> QVariant \<Rightarrow> Configuration \<Rightarrow> Configuration" where
  "s_setValue k v c = c\<lparr>settings := (settings c)(k \<mapsto> v)\<rparr>"

definition emit :: "signal \<Rightarrow> Configuration \<Rightarrow> Configuration" where
  "emit sig c = c\<lparr>emitted := emitted c @ [sig]\<rparr>"

definition qWarning :: "string \<Rightarrow> Configuration \<Rightarrow> Configuration" where
  "qWarning msg c = c\<lparr>warnings := warnings c @ [msg]\<rparr>"

definition qApp_setStyleSheet :: "string \<Rightarrow> Configuration \<Rightarrow> Configuration" where
  "qApp_setStyleSheet sheet c = c\<lparr>qApp := (qApp c)\<lparr>styleSheet := sheet\<rparr>\<rparr>"

definition qApp_setPalette :: "QPalette \<Rightarrow> Configuration \<Rightarrow> Configuration" where
  "qApp_setPalette p c = c\<lparr>qApp := (qApp c)\<lparr>palette := p\<rparr>\<rparr>"

text \<open>
  Modelled from the spec: \<^verbatim>\<open>getInterfaceTheme\<close> and \<^verbatim>\<open>getColorTheme\<close> are defined in
  \<^verbatim>\<open>Configuration.h\<close>, which is not among the sources. The spec lists the durable-store
  keys \<^verbatim>\<open>ColorPalette\<close> (the int index of the interface theme, index 0 being the fallback)
  and \<^verbatim>\<open>theme\<close> (the name of the colour theme). The name used when no colour theme is
  stored is not given, and is the parameter \<open>dflt\<close>.
\<close>

definition getInterfaceTheme :: "Configuration \<Rightarrow> int" where
  "getInterfaceTheme c = toInt (s_value c ''ColorPalette'' (VInt 0))"

definition getColorTheme :: "string \<Rightarrow> Configuration \<Rightarrow> string" where
  "getColorTheme dflt c = toString (s_value c ''theme'' (VString dflt))"


section \<open>Colours in the durable store\<close>

definition setColor :: "string \<Rightarrow> QColor \<Rightarrow> Configuration \<Rightarrow> Configuration" where
  "setColor nm color c = s_setValue (''colors.'' @ nm) (VColor color) c"

definition getColor :: "(string \<Rightarrow> QColor) \<Rightarrow> Configuration \<Rightarrow> string \<Rightarrow> QColor" where
  "getColor namedColor c nm =
     (if s_contains c (''colors.'' @ nm)
      then toColor namedColor (s_value c (''colors.'' @ nm) VInvalid)
      else toColor namedColor (s_value c ''colors.other'' VInvalid))"

text \<open>A run of \<^verbatim>\<open>setColor\<close> calls, made in the order of the list.\<close>

definition setColors :: "(string \<times> QColor) list \<Rightarrow> Configuration \<Rightarrow> Configuration" where
  "setColors xs c = fold (\<lambda>(nm, color). setColor nm color) xs c"

section \<open>The theme loaders\<close>

definition loadBaseThemeNative :: "Configuration \<Rightarrow> Configuration" where
  "loadBaseThemeNative c =
     (let c1 = (case resources c '':native/native.qss'' of
                  None \<Rightarrow> qWarning (''Can'' @ [CHR 0x27] @ ''t find Native theme stylesheet.'') c
                | Some stylesheet \<Rightarrow> qApp_setStyleSheet stylesheet c);
          c2 = qApp_setPalette (nativePalette c1) c1;
          c3 = c2\<lparr>qApp := (qApp c2)\<lparr>allWidgets := map (\<lambda>widget. nativePalette c2) (allWidgets (qApp c2))\<rparr>\<rparr>
      in setColors
           [ (''gui.cflow'', QColor3 0 0 0),
             (''gui.imports'', QColor3 50 140 255),
             (''gui.main'', QColor3 0 128 0),
             (''gui.navbar.seek'', QColor3 255 0 0),
             (''gui.navbar.pc'', QColor3 66 238 244),
             (''gui.navbar.code'', QColor3 104 229 69),
             (''gui.navbar.str'', QColor3 69 104 229),
             (''gui.navbar.sym'', QColor3 229 150 69),
             (''gui.navbar.empty'', QColor3 100 100 100),
             (''gui.breakpoint_background'', QColor3 233 143 143),
             (''gui.item_invalid'', QColor3 155 155 155),
             (''gui.item_unsafe'', QColor3 255 129 123),
             (''gui.overview.node'', QColor3 200 200 200),
             (''gui.tooltip.background'', QColor3 250 252 254),
             (''gui.tooltip.foreground'', QColor3 42 44 46) ] c3)"

definition loadLightTheme :: "Configuration \<Rightarrow> Configuration" where
  "loadLightTheme c =
     (let c1 = (case resources c '':lightstyle/light.qss'' of
                  None \<Rightarrow> qWarning (''Can'' @ [CHR 0x27] @ ''t find Light theme stylesheet.'') c
                | Some stylesheet \<Rightarrow>
                    (let p = (palette (qApp c))\<lparr>Text := QColor3 0 0 0\<rparr>
                     in qApp_setStyleSheet stylesheet (qApp_setPalette p c)))
      in setColors
           [ (''gui.border'', QColor3 145 200 250),
             (''gui.background'', QColor3 255 255 255),
             (''gui.alt_background'', QColor3 245 250 255),
             (''gui.disass_selected'', QColor3 255 255 255),
             (''lineHighlight'', QColor4 210 210 255 150),
             (''wordHighlight'', QColor4 179 119 214 60),
             (''highlightPC'', QColor3 214 255 210),
             (''gui.navbar.empty'', QColor3 220 236 245),
             (''gui.navbar.err'', QColor3 3 170 245),
             (''gui.tooltip.background'', QColor3 250 252 254),
             (''gui.tooltip.foreground'', QColor3 42 44 46),
             (''gui.overview.node'', QColor3 245 250 255),
             (''gui.overview.fill'', QColor4 175 217 234 65),
             (''gui.overview.border'', QColor4 99 218 232 50) ] c1)"

definition loadBaseThemeDark :: "Configuration \<Rightarrow> Configuration" where
  "loadBaseThemeDark c =
     (let c1 = (case resources c '':qdarkstyle/style.qss'' of
                  None \<Rightarrow> qWarning (''Can'' @ [CHR 0x27] @ ''t find Dark theme stylesheet.'') c
                | Some sheet \<Rightarrow>
                    (let stylesheet =
                           (if os_macx c
                            then sheet @ ''QDockWidget::title'' @ ''{''
                                   @ ''    background-color: #31363b;''
                                   @ ''    text-align: center;''
                                   @ ''    height: 12px;'' @ ''}''
                            else sheet);
                         p = (palette (qApp c))\<lparr>Text := QColor3 255 255 255\<rparr>
                     in qApp_setStyleSheet stylesheet (qApp_setPalette p c)))
      in setColors
           [ (''gui.cflow'', QColor3 255 255 255),
             (''gui.dataoffset'', QColor3 255 255 255),
             (''gui.imports'', QColor3 50 140 255),
             (''gui.item_invalid'', QColor3 155 155 155),
             (''gui.item_unsafe'', QColor3 255 129 123),
             (''gui.main'', QColor3 0 128 0),
             (''gui.navbar.seek'', QColor3 233 86 86),
             (''gui.navbar.pc'', QColor3 66 238 244),
             (''gui.navbar.code'', QColor3 130 200 111),
             (''gui.navbar.str'', QColor3 111 134 216),
             (''gui.navbar.sym'', QColor3 221 163 104),
             (''gui.navbar.empty'', QColor3 100 100 100),
             (''highlightPC'', QColor3 87 26 7),
             (''gui.breakpoint_background'', QColor3 140 76 76),
             (''gui.overview.node'', QColor3 100 100 100),
             (''gui.overview.fill'', QColor4 255 255 255 40),
             (''gui.overview.border'', QColor4 99 218 232 50) ] c1)"

definition loadDarkTheme :: "Configuration \<Rightarrow> Configuration" where
  "loadDarkTheme c =
     setColors
       [ (''gui.border'', QColor3 100 100 100),
         (''gui.background'', QColor3 37 40 43),
         (''gui.alt_background'', QColor3 28 31 36),
         (''gui.disass_selected'', QColor3 31 34 40),
         (''gui.tooltip.background'', QColor3 42 44 46),
         (''gui.tooltip.foreground'', QColor3 250 252 254),
         (''lineHighlight'', QColor4 21 29 29 150),
         (''wordHighlight'', QColor4 52 58 71 255) ] (loadBaseThemeDark c)"

text \<open>
  The two override tables of the Native theme, as \<^verbatim>\<open>loadNativeTheme\<close> writes them after
  the base theme: one for a dark window, one for a light window.
\<close>

definition nativeDarkColors :: "(string \<times> QColor) list" where
  "nativeDarkColors =
     [ (''gui.border'', QColor3 0 0 0),
       (''gui.background'', QColor3 30 30 30),
       (''gui.alt_background'', QColor3 42 42 42),
       (''gui.disass_selected'', QColor3 35 35 35),
       (''lineHighlight'', QColor4 255 255 255 15),
       (''wordHighlight'', QColor4 20 20 20 255),
       (''highlightPC'', QColor3 87 26 7),
       (''gui.tooltip.background'', QColor3 42 44 46),
       (''gui.tooltip.foreground'', QColor3 250 252 254),
       (''gui.dataoffset'', QColor3 255 255 255),
       (''gui.overview.fill'', QColor4 255 255 255 40),
       (''gui.overview.border'', QColor4 99 218 232 50) ]"

definition nativeLightColors :: "(string \<times> QColor) list" where
  "nativeLightColors =
     [ (''gui.border'', QColor3 0 0 0),
       (''gui.background'', QColor3 255 255 255),
       (''gui.alt_background'', QColor3 245 250 255),
       (''gui.disass_selected'', QColor3 255 255 255),
       (''lineHighlight'', QColor4 210 210 255 150),
       (''wordHighlight'', QColor4 179 119 214 60),
       (''highlightPC'', QColor3 214 255 210),
       (''gui.dataoffset'', QColor3 0 0 0),
       (''gui.overview.fill'', QColor4 175 217 234 65),
       (''gui.overview.border'', QColor4 99 218 232 50) ]"

section \<open>Selecting the interface theme\<close>

text \<open>
  The index of a theme is a C++ \<^verbatim>\<open>int\<close>; it is only compared and used as an index, never
  computed with, so it is an unbounded integer here.

  \<^verbatim>\<open>windowColorIsDark\<close> asks \<^verbatim>\<open>getCurrentTheme\<close>, which calls \<^verbatim>\<open>setInterfaceTheme\<close> when the
  stored index is out of range, which may call \<^verbatim>\<open>loadNativeTheme\<close>, which calls
  \<^verbatim>\<open>windowColorIsDark\<close> again: the four are mutually recursive, as in the source. Each
  returns the facade it leaves behind, next to its result if it has one.
\<close>

function windowColorIsDark :: "Configuration \<Rightarrow> bool \<times> Configuration"
  and getCurrentTheme :: "Configuration \<Rightarrow> CutterInterfaceTheme \<times> Configuration"
  and setInterfaceTheme :: "int \<Rightarrow> Configuration \<Rightarrow> Configuration"
  and loadNativeTheme :: "Configuration \<Rightarrow> Configuration"
where
  "windowColorIsDark c =
     (case getCurrentTheme c of
        (t, c1) \<Rightarrow>
          (let currentThemeColorFlags = flag t in
           if currentThemeColorFlags = LightFlag then (False, c1)
           else if currentThemeColorFlags = DarkFlag then (True, c1)
           else (let windowColor = toRgb (Window (palette (qApp c1)))
                 in (red windowColor + green windowColor + blue windowColor < 382, c1))))"
| "getCurrentTheme c =
     (let i = getInterfaceTheme c in
      if i < 0 \<or> i \<ge> int (length kCutterInterfaceThemesList)
      then (kCutterInterfaceThemesList ! 0, setInterfaceTheme 0 c)
      else (kCutterInterfaceThemesList ! nat i, c))"
| "setInterfaceTheme theme c =
     (let theme1 = (if theme \<ge> int (length kCutterInterfaceThemesList) \<or> theme < 0
                    then 0 else theme);
          c1 = s_setValue ''ColorPalette'' (VInt theme1) c;
          themeName = name (kCutterInterfaceThemesList ! nat theme1);
          c2 = (if themeName = ''Native'' then loadNativeTheme c1
                else if themeName = ''Dark'' then loadDarkTheme c1
                else if themeName = ''Light'' then loadLightTheme c1
                else loadNativeTheme c1)
      in emit ColorsUpdated (emit InterfaceThemeChanged c2))"
| "loadNativeTheme c =
     (case windowColorIsDark (loadBaseThemeNative c) of
        (dark, c2) \<Rightarrow>
          (if dark then setColors nativeDarkColors c2 else setColors nativeLightColors c2))"
  by pat_completeness auto

termination
proof -
  have len: "int (length kCutterInterfaceThemesList) = 3"
    by (simp add: kCutterInterfaceThemesList_def)
  have written: "getInterfaceTheme (s_setValue ''ColorPalette'' (VInt x) c) = x" for x c
    by (simp add: getInterfaceTheme_def s_value_def s_setValue_def)
  have colours: "settings (setColors xs c) ''ColorPalette'' = settings c ''ColorPalette''" for xs c
    unfolding setColors_def
    by (induction xs arbitrary: c) (auto simp: setColor_def s_setValue_def)
  have base: "getInterfaceTheme (loadBaseThemeNative c) = getInterfaceTheme c" for c
    by (simp add: getInterfaceTheme_def s_value_def loadBaseThemeNative_def Let_def colours
        qWarning_def qApp_setStyleSheet_def qApp_setPalette_def split: option.split)
  show ?thesis
    by (relation "measure (\<lambda>x. case x of
      Inl (Inl c) \<Rightarrow> (if 0 \<le> getInterfaceTheme c \<and> getInterfaceTheme c < 3 then 1 else 5)
    | Inl (Inr c) \<Rightarrow> (if 0 \<le> getInterfaceTheme c \<and> getInterfaceTheme c < 3 then 0 else 4)
    | Inr (Inl (t, c)) \<Rightarrow> 3
    | Inr (Inr c) \<Rightarrow> (if 0 \<le> getInterfaceTheme c \<and> getInterfaceTheme c < 3 then 2 else 6))")
       (auto simp: len written base)
qed

declare windowColorIsDark.simps [simp del]
declare getCurrentTheme.simps [simp del]
declare setInterfaceTheme.simps [simp del]
declare loadNativeTheme.simps [simp del]

section \<open>The last colour theme of an interface theme\<close>

definition getLastThemeOf :: "string \<Rightarrow> Configuration \<Rightarrow> CutterInterfaceTheme \<Rightarrow> string" where
  "getLastThemeOf dflt c currInterfaceTheme =
     toString (s_value c (''lastThemeOf.'' @ name currInterfaceTheme)
                 (VString (getColorTheme dflt c)))"

definition setLastThemeOf :: "CutterInterfaceTheme \<Rightarrow> string \<Rightarrow> Configuration \<Rightarrow> Configuration" where
  "setLastThemeOf currInterfaceTheme theme c =
     s_setValue (''lastThemeOf.'' @ name currInterfaceTheme) (VString theme) c"

section \<open>Selecting the colour theme\<close>

text \<open>
  The colour-theme worker (\<^verbatim>\<open>ColorThemeWorker\<close>) is not among the sources; its two functions
  used here are parameters: the colours of a theme as the engine reports them, a JSON object
  given as its key/value pairs in iteration order, and whether a theme is a custom one.
\<close>

record ColorThemeWorker =
  getTheme :: "CutterCore \<Rightarrow> string \<Rightarrow> (string \<times> QJsonValue) list"
  isCustomTheme :: "string \<Rightarrow> bool"

text \<open>One round of the loop over the theme's colours.\<close>

definition applyThemeColor :: "string \<times> QJsonValue \<Rightarrow> Configuration \<Rightarrow> Configuration" where
  "applyThemeColor it c =
     (let rgb = toArray (snd it) in
      if length rgb \<noteq> 4 then c
      else setColor (fst it)
             (QColor4 (json_toInt (rgb ! 0)) (json_toInt (rgb ! 1))
                      (json_toInt (rgb ! 2)) (json_toInt (rgb ! 3))) c)"

definition setColorTheme :: "ColorThemeWorker \<Rightarrow> string \<Rightarrow> Configuration \<Rightarrow> Configuration" where
  "setColorTheme tw theme c =
     (let c1 = (if theme = ''default''
                then s_setValue ''theme'' (VString ''default'')
                       (c\<lparr>core := Core_cmd ''ecd'' (core c)\<rparr>)
                else s_setValue ''theme'' (VString theme)
                       (c\<lparr>core := Core_cmd (''eco '' @ theme) (core c)\<rparr>));
          colorTheme = getTheme tw (core c1) theme;
          c2 = fold applyThemeColor colorTheme c1;
          c3 = (if \<not> isCustomTheme tw theme
                then setInterfaceTheme (getInterfaceTheme c2) c2 else c2)
      in emit ColorsUpdated c3)"

section \<open>The options mirrored into the engine\<close>

definition setConfig :: "string \<Rightarrow> QVariant \<Rightarrow> Configuration \<Rightarrow> Configuration" where
  "setConfig key val c =
     (let c1 = (if map_of asmOptions key \<noteq> None then s_setValue key val c else c)
      in c1\<lparr>core := Core_setConfig key val (core c1)\<rparr>)"

definition resetToDefaultAsmOptions :: "Configuration \<Rightarrow> Configuration" where
  "resetToDefaultAsmOptions c = fold (\<lambda>(key, dflt). setConfig key dflt) asmOptions c"

definition applySavedAsmOptions :: "Configuration \<Rightarrow> Configuration" where
  "applySavedAsmOptions c =
     fold (\<lambda>(key, dflt) c1. c1\<lparr>core := Core_setConfig key (s_value c1 key dflt) (core c1)\<rparr>)
       asmOptions c"

definition getConfigVar :: "Configuration \<Rightarrow> string \<Rightarrow> QVariant" where
  "getConfigVar c key =
     (case map_of asmOptions key of
        Some dflt \<Rightarrow>
          (case qvariant_type dflt of
             TBool \<Rightarrow> VBool (Core_getConfigb (core c) key)
           | TInt \<Rightarrow> VInt (Core_getConfigi (core c) key)
           | _ \<Rightarrow> VString (Core_getConfig (core c) key))
      | None \<Rightarrow> VInvalid)"

section \<open>The first-execution flag\<close>

definition isFirstExecution :: "Configuration \<Rightarrow> bool \<times> Configuration" where
  "isFirstExecution c =
     (if s_contains c ''firstExecution'' then (False, c)
      else (True, s_setValue ''firstExecution'' (VBool False) c))"

text \<open>The results of \<open>n\<close> calls of \<^verbatim>\<open>isFirstExecution\<close> in a row, and the facade after them.\<close>

fun isFirstExecution_calls :: "nat \<Rightarrow> Configuration \<Rightarrow> bool list \<times> Configuration" where
  "isFirstExecution_calls 0 c = ([], c)"
| "isFirstExecution_calls (Suc n) c =
     (case isFirstExecution c of
        (r, c1) \<Rightarrow> (case isFirstExecution_calls n c1 of (rs, c2) \<Rightarrow> (r # rs, c2)))"

section \<open>Concrete facades, for instances of the theorems\<close>

text \<open>A facade on an empty durable store, with a light native palette and no resource files.\<close>

definition freshConfiguration :: Configuration where
  "freshConfiguration =
     \<lparr> settings = Map.empty,
       nativePalette = \<lparr>Window = Rgba 239 239 239 255, Text = Rgba 0 0 0 255\<rparr>,
       qApp = \<lparr>palette = \<lparr>Window = Rgba 239 239 239 255, Text = Rgba 0 0 0 255\<rparr>,
               styleSheet = [], allWidgets = []\<rparr>,
       core = \<lparr>config = Map.empty, cmds = []\<rparr>,
       emitted = [], warnings = [], resources = Map.empty, os_macx = False \<rparr>"

text \<open>The same facade with a dark window in the application's palette.\<close>

definition nightConfiguration :: Configuration where
  "nightConfiguration =
     freshConfiguration
       \<lparr>qApp := \<lparr>palette = \<lparr>Window = Rgba 30 30 30 255, Text = Rgba 255 255 255 255\<rparr>,
                 styleSheet = [], allWidgets = []\<rparr>\<rparr>"

text \<open>A facade whose store holds a colour theme and another one as the last of Dark.\<close>

definition themedConfiguration :: Configuration where
  "themedConfiguration =
     freshConfiguration
       \<lparr>settings := [''theme'' \<mapsto> VString ''ayu'', ''lastThemeOf.Dark'' \<mapsto> VString ''solarized'']\<rparr>"

text \<open>
  A worker for which \<^verbatim>\<open>MyCustom\<close> is a custom theme, whose only colour is the one of the
  empty part of the navigation bar.
\<close>

definition customWorker :: ColorThemeWorker where
  "customWorker =
     \<lparr> getTheme = (\<lambda>e theme. [(''gui.navbar.empty'', JArray [JInt 1, JInt 2, JInt 3, JInt 255])]),
       isCustomTheme = (\<lambda>theme. theme = ''MyCustom'') \<rparr>"

section \<open>What the loaders and the theme selection leave alone\<close>

lemma registry_size: "int (length kCutterInterfaceThemesList) = 3"
  by (simp add: kCutterInterfaceThemesList_def)

lemma setColors_frame:
  "nativePalette (setColors xs c) = nativePalette c"
  "qApp (setColors xs c) = qApp c"
  "core (setColors xs c) = core c"
  "emitted (setColors xs c) = emitted c"
  "warnings (setColors xs c) = warnings c"
  "resources (setColors xs c) = resources c"
  "os_macx (setColors xs c) = os_macx c"
  unfolding setColors_def
  by (induction xs arbitrary: c; simp add: setColor_def s_setValue_def split: prod.split)+

lemma setColors_other_key:
  assumes "\<And>nm. k \<noteq> ''colors.'' @ nm"
  shows "settings (setColors xs c) k = settings c k"
  unfolding setColors_def
proof (induction xs arbitrary: c)
  case Nil
  show ?case by simp
next
  case (Cons x xs)
  obtain nm color where x: "x = (nm, color)" by (cases x)
  have "settings (setColor nm color c) k = settings c k"
    using assms [of nm] by (simp add: setColor_def s_setValue_def del: append.simps)
  then show ?case
    by (simp add: Cons.IH x)
qed

lemma getInterfaceTheme_setColors: "getInterfaceTheme (setColors xs c) = getInterfaceTheme c"
  by (simp add: getInterfaceTheme_def s_value_def setColors_other_key)

lemma getInterfaceTheme_written:
  "getInterfaceTheme (s_setValue ''ColorPalette'' (VInt x) c) = x"
  by (simp add: getInterfaceTheme_def s_value_def s_setValue_def)

lemma getCurrentTheme_valid:
  "0 \<le> getInterfaceTheme c \<Longrightarrow> getInterfaceTheme c < 3 \<Longrightarrow>
   getCurrentTheme c = (kCutterInterfaceThemesList ! nat (getInterfaceTheme c), c)"
  by (simp add: getCurrentTheme.simps registry_size)

lemma frame_index:
  "getInterfaceTheme (qWarning m c) = getInterfaceTheme c"
  "getInterfaceTheme (qApp_setStyleSheet sh c) = getInterfaceTheme c"
  "getInterfaceTheme (qApp_setPalette p c) = getInterfaceTheme c"
  "getInterfaceTheme (c\<lparr>qApp := a\<rparr>) = getInterfaceTheme c"
  by (simp_all add: getInterfaceTheme_def s_value_def qWarning_def qApp_setStyleSheet_def
      qApp_setPalette_def)

lemma loaders_index:
  "getInterfaceTheme (loadBaseThemeNative c) = getInterfaceTheme c"
  "getInterfaceTheme (loadDarkTheme c) = getInterfaceTheme c"
  "getInterfaceTheme (loadLightTheme c) = getInterfaceTheme c"
  by (simp_all add: loadBaseThemeNative_def loadDarkTheme_def
      loadBaseThemeDark_def loadLightTheme_def Let_def getInterfaceTheme_setColors frame_index
      split: option.split)

lemma windowColorIsDark_valid:
  "0 \<le> getInterfaceTheme c \<Longrightarrow> getInterfaceTheme c < 3 \<Longrightarrow>
   windowColorIsDark c =
     (if getInterfaceTheme c = 2 then False
      else if getInterfaceTheme c = 1 then True
      else red (Window (palette (qApp c))) + green (Window (palette (qApp c)))
             + blue (Window (palette (qApp c))) < 382, c)"
proof -
  assume v: "0 \<le> getInterfaceTheme c" "getInterfaceTheme c < 3"
  then consider "getInterfaceTheme c = 0" | "getInterfaceTheme c = 1" | "getInterfaceTheme c = 2"
    by linarith
  then show ?thesis
    by cases
      (simp_all add: windowColorIsDark.simps getCurrentTheme_valid kCutterInterfaceThemesList_def
         LightFlag_def DarkFlag_def or_flags_def toRgb_def Let_def)
qed


lemma loadNativeTheme_valid:
  assumes "0 \<le> getInterfaceTheme c" "getInterfaceTheme c < 3"
  shows "loadNativeTheme c =
     setColors (if fst (windowColorIsDark (loadBaseThemeNative c))
                then nativeDarkColors else nativeLightColors) (loadBaseThemeNative c)"
proof -
  obtain dark c2 where w: "windowColorIsDark (loadBaseThemeNative c) = (dark, c2)"
    by (cases "windowColorIsDark (loadBaseThemeNative c)")
  have "snd (windowColorIsDark (loadBaseThemeNative c)) = loadBaseThemeNative c"
    using assms by (simp add: windowColorIsDark_valid loaders_index)
  with w have "c2 = loadBaseThemeNative c" by simp
  with w show ?thesis
    by (simp add: loadNativeTheme.simps)
qed


text \<open>What \<^verbatim>\<open>setInterfaceTheme\<close> does, with the recursion resolved.\<close>

lemma setInterfaceTheme_closed:
  "setInterfaceTheme i c =
     (let i1 = (if 3 \<le> i \<or> i < 0 then 0 else i);
          c1 = s_setValue ''ColorPalette'' (VInt i1) c;
          c2 = (if i1 = 0
                then setColors (if fst (windowColorIsDark (loadBaseThemeNative c1))
                                then nativeDarkColors else nativeLightColors)
                       (loadBaseThemeNative c1)
                else if i1 = 1 then loadDarkTheme c1
                else loadLightTheme c1)
      in emit ColorsUpdated (emit InterfaceThemeChanged c2))"
proof -
  let ?i1 = "if 3 \<le> i \<or> i < 0 then 0 else i"
  let ?c1 = "s_setValue ''ColorPalette'' (VInt ?i1) c"
  have "0 \<le> ?i1" "?i1 < 3" by simp_all
  then consider "?i1 = 0" | "?i1 = 1" | "?i1 = 2"
    by fastforce
  then show ?thesis
  proof cases
    case 1
    have n: "loadNativeTheme (s_setValue ''ColorPalette'' (VInt 0) c) =
       setColors (if fst (windowColorIsDark (loadBaseThemeNative (s_setValue ''ColorPalette'' (VInt 0) c)))
                  then nativeDarkColors else nativeLightColors)
         (loadBaseThemeNative (s_setValue ''ColorPalette'' (VInt 0) c))"
      by (rule loadNativeTheme_valid) (simp_all add: getInterfaceTheme_written)
    show ?thesis
      using 1
      by (simp add: setInterfaceTheme.simps registry_size kCutterInterfaceThemesList_def Let_def n)
  next
    case 2
    then show ?thesis
      by (simp add: setInterfaceTheme.simps registry_size kCutterInterfaceThemesList_def Let_def)
  next
    case 3
    then show ?thesis
      by (simp add: setInterfaceTheme.simps registry_size kCutterInterfaceThemesList_def Let_def)
  qed
qed


lemma frame_settings:
  "settings (qWarning m c) = settings c"
  "settings (qApp_setStyleSheet sh c) = settings c"
  "settings (qApp_setPalette p c) = settings c"
  "settings (emit sig c) = settings c"
  by (simp_all add: qWarning_def qApp_setStyleSheet_def qApp_setPalette_def emit_def)

lemma frame_core:
  "core (qWarning m c) = core c"
  "core (qApp_setStyleSheet sh c) = core c"
  "core (qApp_setPalette p c) = core c"
  "core (emit sig c) = core c"
  "core (s_setValue k v c) = core c"
  by (simp_all add: qWarning_def qApp_setStyleSheet_def qApp_setPalette_def emit_def s_setValue_def)

lemma loaders_other_key:
  assumes "\<And>nm. k \<noteq> ''colors.'' @ nm"
  shows "settings (loadBaseThemeNative c) k = settings c k"
    and "settings (loadDarkTheme c) k = settings c k"
    and "settings (loadLightTheme c) k = settings c k"
  using assms
  by (simp_all add: loadBaseThemeNative_def loadDarkTheme_def loadBaseThemeDark_def
      loadLightTheme_def Let_def setColors_other_key frame_settings split: option.split)

lemma loaders_core:
  "core (loadBaseThemeNative c) = core c"
  "core (loadDarkTheme c) = core c"
  "core (loadLightTheme c) = core c"
  by (simp_all add: loadBaseThemeNative_def loadDarkTheme_def loadBaseThemeDark_def
      loadLightTheme_def Let_def setColors_frame frame_core split: option.split)

lemma setInterfaceTheme_other_key:
  assumes "\<And>nm. k \<noteq> ''colors.'' @ nm" and "k \<noteq> ''ColorPalette''"
  shows "settings (setInterfaceTheme i c) k = settings c k"
proof -
  have "settings (s_setValue ''ColorPalette'' v c) k = settings c k" for v
    using assms(2) by (simp add: s_setValue_def)
  then show ?thesis
    using assms(1)
    by (simp add: setInterfaceTheme_closed Let_def frame_settings setColors_other_key
        loaders_other_key)
qed

lemma setInterfaceTheme_index:
  "settings (setInterfaceTheme i c) ''ColorPalette'' = Some (VInt (if 3 \<le> i \<or> i < 0 then 0 else i))"
  by (simp add: setInterfaceTheme_closed Let_def frame_settings setColors_other_key
      loaders_other_key s_setValue_def)

lemma setInterfaceTheme_core: "core (setInterfaceTheme i c) = core c"
  by (simp add: setInterfaceTheme_closed Let_def frame_core setColors_frame loaders_core)

lemma setInterfaceTheme_emitted:
  "emitted (setInterfaceTheme i c) = emitted c @ [InterfaceThemeChanged, ColorsUpdated]"
  by (simp add: setInterfaceTheme_closed Let_def emit_def setColors_frame
      loadBaseThemeNative_def loadDarkTheme_def loadBaseThemeDark_def loadLightTheme_def
      qWarning_def qApp_setStyleSheet_def qApp_setPalette_def s_setValue_def split: option.split)

lemma getInterfaceTheme_setInterfaceTheme:
  "getInterfaceTheme (setInterfaceTheme i c) = (if 3 \<le> i \<or> i < 0 then 0 else i)"
  by (simp add: getInterfaceTheme_def s_value_def setInterfaceTheme_index)

lemma setInterfaceTheme_zero_palette:
  "palette (qApp (setInterfaceTheme 0 c)) = nativePalette c"
  by (simp add: setInterfaceTheme_closed Let_def emit_def setColors_frame
      loadBaseThemeNative_def qWarning_def qApp_setStyleSheet_def qApp_setPalette_def
      s_setValue_def split: option.split)

lemma getCurrentTheme_invalid:
  "getInterfaceTheme c < 0 \<or> 3 \<le> getInterfaceTheme c \<Longrightarrow>
   getCurrentTheme c = (kCutterInterfaceThemesList ! 0, setInterfaceTheme 0 c)"
  by (auto simp add: getCurrentTheme.simps registry_size)

lemma fold_applyThemeColor_frame:
  "core (fold applyThemeColor xs c) = core c"
  "emitted (fold applyThemeColor xs c) = emitted c"
  by (induction xs arbitrary: c;
      simp add: applyThemeColor_def Let_def setColor_def s_setValue_def)+

lemma fold_applyThemeColor_other_key:
  assumes "\<And>nm. k \<noteq> ''colors.'' @ nm"
  shows "settings (fold applyThemeColor xs c) k = settings c k"
proof (induction xs arbitrary: c)
  case Nil
  show ?case by simp
next
  case (Cons x xs)
  have "settings (applyThemeColor x c) k = settings c k"
    using assms [of "fst x"]
    by (simp add: applyThemeColor_def Let_def setColor_def s_setValue_def del: append.simps)
  then show ?case
    by (simp add: Cons.IH)
qed

lemma setInterfaceTheme_navbar_empty:
  "settings (setInterfaceTheme i c) ''colors.gui.navbar.empty'' =
     Some (VColor (if i = 2 then Rgba 220 236 245 255 else Rgba 100 100 100 255))"
  by (simp add: setInterfaceTheme_closed Let_def emit_def setColors_def setColor_def
      s_setValue_def QColor3_def QColor4_def loadBaseThemeNative_def loadDarkTheme_def
      loadBaseThemeDark_def loadLightTheme_def nativeDarkColors_def nativeLightColors_def
      qWarning_def qApp_setStyleSheet_def qApp_setPalette_def split: option.split)

section \<open>The loops over the option catalog, in closed form\<close>

lemma asmOptions_distinct: "distinct (map fst asmOptions)"
  by (simp add: asmOptions_def)

lemma asmOptions_types:
  "map_of asmOptions k = Some d \<Longrightarrow> qvariant_type d \<in> {TBool, TInt, TString}"
proof -
  assume "map_of asmOptions k = Some d"
  then have "(k, d) \<in> set asmOptions"
    by (rule map_of_SomeD)
  then have "d \<in> snd ` set asmOptions"
    by force
  then show ?thesis
    by (auto simp: asmOptions_def)
qed

lemma map_add_twice: "(m ++ n) ++ n = m ++ n"
  by (rule ext) (simp add: map_add_def split: option.split)

lemma fold_setConfig_closed:
  assumes "set xs \<subseteq> set asmOptions" and "distinct (map fst xs)"
  shows "fold (\<lambda>(key, dflt). setConfig key dflt) xs c =
           c\<lparr>settings := settings c ++ map_of xs,
             core := (core c)\<lparr>config := config (core c) ++ map_of xs\<rparr>\<rparr>"
  using assms
proof (induction xs arbitrary: c)
  case Nil
  show ?case by simp
next
  case (Cons x xs)
  obtain k d where x: "x = (k, d)" by (cases x)
  have "(k, d) \<in> set asmOptions"
    using Cons.prems(1) x by simp
  then have "k \<in> fst ` set asmOptions"
    by force
  then have known: "map_of asmOptions k \<noteq> None"
    by (simp add: map_of_eq_None_iff)
  have fresh: "k \<notin> dom (map_of xs)"
    using Cons.prems(2) x by (simp add: dom_map_of_conv_image_fst)
  have step: "setConfig k d c =
      c\<lparr>settings := (settings c)(k \<mapsto> d),
        core := (core c)\<lparr>config := (config (core c))(k \<mapsto> d)\<rparr>\<rparr>"
    using known by (simp add: setConfig_def Let_def s_setValue_def Core_setConfig_def)
  have ih: "fold (\<lambda>(key, dflt). setConfig key dflt) xs (setConfig k d c) =
           (setConfig k d c)\<lparr>settings := settings (setConfig k d c) ++ map_of xs,
             core := (core (setConfig k d c))\<lparr>config := config (core (setConfig k d c)) ++ map_of xs\<rparr>\<rparr>"
    using Cons.prems by (intro Cons.IH) auto
  have m: "m(k \<mapsto> d) ++ map_of xs = m ++ map_of (x # xs)" for m :: "string \<rightharpoonup> QVariant"
  proof (rule ext)
    fix a
    show "(m(k \<mapsto> d) ++ map_of xs) a = (m ++ map_of (x # xs)) a"
      using fresh by (cases "a = k") (auto simp: x map_add_def split: option.split)
  qed
  have "fold (\<lambda>(key, dflt). setConfig key dflt) (x # xs) c
          = fold (\<lambda>(key, dflt). setConfig key dflt) xs (setConfig k d c)"
    by (simp add: x)
  also have "\<dots> = (setConfig k d c)\<lparr>settings := settings (setConfig k d c) ++ map_of xs,
             core := (core (setConfig k d c))\<lparr>config := config (core (setConfig k d c)) ++ map_of xs\<rparr>\<rparr>"
    by (rule ih)
  also have "\<dots> = c\<lparr>settings := (settings c)(k \<mapsto> d) ++ map_of xs,
             core := (core c)\<lparr>config := (config (core c))(k \<mapsto> d) ++ map_of xs\<rparr>\<rparr>"
    by (simp add: step)
  also have "\<dots> = c\<lparr>settings := settings c ++ map_of (x # xs),
             core := (core c)\<lparr>config := config (core c) ++ map_of (x # xs)\<rparr>\<rparr>"
    by (simp only: m)
  finally show ?case .
qed


lemma fold_applySaved_closed:
  assumes "distinct (map fst xs)"
  shows "fold (\<lambda>(key, dflt) c1. c1\<lparr>core := Core_setConfig key (s_value c1 key dflt) (core c1)\<rparr>) xs c =
           c\<lparr>core := (core c)\<lparr>config := config (core c)
                    ++ map_of (map (\<lambda>(key, dflt). (key, s_value c key dflt)) xs)\<rparr>\<rparr>"
  using assms
proof (induction xs arbitrary: c)
  case Nil
  show ?case by simp
next
  case (Cons x xs)
  let ?f = "\<lambda>(key, dflt) c1. c1\<lparr>core := Core_setConfig key (s_value c1 key dflt) (core c1)\<rparr>"
  let ?g = "\<lambda>c. (\<lambda>(key, dflt). (key, s_value c key dflt))"
  obtain k d where x: "x = (k, d)" by (cases x)
  let ?c1 = "c\<lparr>core := Core_setConfig k (s_value c k d) (core c)\<rparr>"
  have same: "s_value (c\<lparr>core := e\<rparr>) = s_value c" for e
    by (intro ext) (simp add: s_value_def)
  have "fst ` set (map (?g c) xs) = fst ` set xs"
    by force
  then have fresh: "k \<notin> dom (map_of (map (?g c) xs))"
    using Cons.prems x by (simp add: dom_map_of_conv_image_fst)
  have m: "m(k \<mapsto> s_value c k d) ++ map_of (map (?g c) xs) = m ++ map_of (map (?g c) (x # xs))"
    for m :: "string \<rightharpoonup> QVariant"
  proof (rule ext)
    fix a
    show "(m(k \<mapsto> s_value c k d) ++ map_of (map (?g c) xs)) a
            = (m ++ map_of (map (?g c) (x # xs))) a"
      using fresh by (cases "a = k") (auto simp: x map_add_def split: option.split)
  qed
  have "fold ?f (x # xs) c = fold ?f xs ?c1"
    by (simp add: x)
  also have "\<dots> = ?c1\<lparr>core := (core ?c1)\<lparr>config := config (core ?c1) ++ map_of (map (?g ?c1) xs)\<rparr>\<rparr>"
    using Cons.prems by (intro Cons.IH) simp
  also have "\<dots> = c\<lparr>core := (core c)\<lparr>config := (config (core c))(k \<mapsto> s_value c k d)
                          ++ map_of (map (?g c) xs)\<rparr>\<rparr>"
    by (simp add: same Core_setConfig_def)
  also have "\<dots> = c\<lparr>core := (core c)\<lparr>config := config (core c) ++ map_of (map (?g c) (x # xs))\<rparr>\<rparr>"
    by (simp only: m)
  finally show ?case .
qed

lemma fold_Core_setConfig_closed:
  assumes "distinct (map fst xs)"
  shows "fold (\<lambda>(key, v). Core_setConfig key v) xs e = e\<lparr>config := config e ++ map_of xs\<rparr>"
  using assms
proof (induction xs arbitrary: e)
  case Nil
  show ?case by simp
next
  case (Cons x xs)
  obtain k v where x: "x = (k, v)" by (cases x)
  have fresh: "k \<notin> dom (map_of xs)"
    using Cons.prems x by (simp add: dom_map_of_conv_image_fst)
  have m: "m(k \<mapsto> v) ++ map_of xs = m ++ map_of (x # xs)" for m :: "string \<rightharpoonup> QVariant"
  proof (rule ext)
    fix a
    show "(m(k \<mapsto> v) ++ map_of xs) a = (m ++ map_of (x # xs)) a"
      using fresh by (cases "a = k") (auto simp: x map_add_def split: option.split)
  qed
  have "fold (\<lambda>(key, v). Core_setConfig key v) (x # xs) e
          = fold (\<lambda>(key, v). Core_setConfig key v) xs (Core_setConfig k v e)"
    by (simp add: x)
  also have "\<dots> = (Core_setConfig k v e)\<lparr>config := config (Core_setConfig k v e) ++ map_of xs\<rparr>"
    using Cons.prems by (intro Cons.IH) simp
  also have "\<dots> = e\<lparr>config := (config e)(k \<mapsto> v) ++ map_of xs\<rparr>"
    by (simp add: Core_setConfig_def)
  also have "\<dots> = e\<lparr>config := config e ++ map_of (x # xs)\<rparr>"
    by (simp only: m)
  finally show ?case .
qed

text \<open>
  The source iterates over a hash table, in an order it does not fix. Both loops give the
  same facade in whatever order the entries of the catalog are visited.
\<close>

lemma resetToDefaultAsmOptions_any_order:
  assumes "set xs = set asmOptions" and "distinct (map fst xs)"
  shows "fold (\<lambda>(key, dflt). setConfig key dflt) xs c = resetToDefaultAsmOptions c"
proof -
  have m: "map_of xs = map_of asmOptions"
    using assms asmOptions_distinct by (simp add: map_of_inject_set)
  have "fold (\<lambda>(key, dflt). setConfig key dflt) xs c =
           c\<lparr>settings := settings c ++ map_of xs,
             core := (core c)\<lparr>config := config (core c) ++ map_of xs\<rparr>\<rparr>"
    using assms by (intro fold_setConfig_closed) simp_all
  moreover have "resetToDefaultAsmOptions c =
           c\<lparr>settings := settings c ++ map_of asmOptions,
             core := (core c)\<lparr>config := config (core c) ++ map_of asmOptions\<rparr>\<rparr>"
    unfolding resetToDefaultAsmOptions_def
    by (rule fold_setConfig_closed) (simp_all add: asmOptions_distinct)
  ultimately show ?thesis
    by (simp only: m)
qed

lemma applySavedAsmOptions_any_order:
  assumes "set xs = set asmOptions" and "distinct (map fst xs)"
  shows "fold (\<lambda>(key, dflt) c1. c1\<lparr>core := Core_setConfig key (s_value c1 key dflt) (core c1)\<rparr>) xs c
           = applySavedAsmOptions c"
proof -
  let ?g = "\<lambda>(key, dflt). (key, s_value c key dflt)"
  have keys: "map fst (map ?g ys) = map fst ys" for ys
    by (simp add: case_prod_unfold comp_def)
  have "set (map ?g xs) = set (map ?g asmOptions)"
    using assms(1) by simp
  moreover have "distinct (map fst (map ?g xs))" "distinct (map fst (map ?g asmOptions))"
    using assms(2) asmOptions_distinct by (simp_all only: keys)
  ultimately have m: "map_of (map ?g xs) = map_of (map ?g asmOptions)"
    by (simp only: map_of_inject_set)
  have "fold (\<lambda>(key, dflt) c1. c1\<lparr>core := Core_setConfig key (s_value c1 key dflt) (core c1)\<rparr>) xs c =
           c\<lparr>core := (core c)\<lparr>config := config (core c) ++ map_of (map ?g xs)\<rparr>\<rparr>"
    using assms(2) by (rule fold_applySaved_closed)
  moreover have "applySavedAsmOptions c =
           c\<lparr>core := (core c)\<lparr>config := config (core c) ++ map_of (map ?g asmOptions)\<rparr>\<rparr>"
    unfolding applySavedAsmOptions_def
    by (rule fold_applySaved_closed) (rule asmOptions_distinct)
  ultimately show ?thesis
    by (simp only: m)
qed

section \<open>An index outside the registry selects the Native theme\<close>

text \<open>
  C1. The registry has three themes. For every index \<open>i\<close> below 0 or not below 3,
  \<^verbatim>\<open>setInterfaceTheme(i)\<close> leaves the facade exactly as \<^verbatim>\<open>setInterfaceTheme(0)\<close> does: the
  index 0 is what is persisted under \<^verbatim>\<open>ColorPalette\<close>, the Native loader is the one that
  runs, and the two notifications (interface theme changed, colours updated) are emitted,
  in this order.
\<close>

theorem setInterfaceTheme_out_of_range:
  "i < 0 \<or> int (length kCutterInterfaceThemesList) \<le> i \<Longrightarrow>
     setInterfaceTheme i c = setInterfaceTheme 0 c
   \<and> int (length kCutterInterfaceThemesList) = 3
   \<and> settings (setInterfaceTheme i c) ''ColorPalette'' = Some (VInt 0)
   \<and> setInterfaceTheme i c =
        emit ColorsUpdated (emit InterfaceThemeChanged
          (loadNativeTheme (s_setValue ''ColorPalette'' (VInt 0) c)))
   \<and> emitted (setInterfaceTheme i c) = emitted c @ [InterfaceThemeChanged, ColorsUpdated]"
proof -
  assume "i < 0 \<or> int (length kCutterInterfaceThemesList) \<le> i"
  then have out: "3 \<le> i \<or> i < 0"
    by (auto simp: registry_size)
  have run: "setInterfaceTheme i c =
        emit ColorsUpdated (emit InterfaceThemeChanged
          (loadNativeTheme (s_setValue ''ColorPalette'' (VInt 0) c)))"
    using out
    by (simp add: setInterfaceTheme.simps [of i] registry_size kCutterInterfaceThemesList_def Let_def)
  have zero: "setInterfaceTheme 0 c =
        emit ColorsUpdated (emit InterfaceThemeChanged
          (loadNativeTheme (s_setValue ''ColorPalette'' (VInt 0) c)))"
    by (simp add: setInterfaceTheme.simps [of 0] registry_size kCutterInterfaceThemesList_def Let_def)
  have idx: "settings (setInterfaceTheme i c) ''ColorPalette'' = Some (VInt 0)"
    using out by (simp add: setInterfaceTheme_index)
  have same: "setInterfaceTheme i c = setInterfaceTheme 0 c"
    using run zero by simp
  show ?thesis
    by (intro conjI same registry_size idx run setInterfaceTheme_emitted)
qed

theorem setInterfaceTheme_out_of_range_witness:
  "((7::int) < 0 \<or> int (length kCutterInterfaceThemesList) \<le> 7)
   \<and> setInterfaceTheme 7 freshConfiguration = setInterfaceTheme 0 freshConfiguration
   \<and> settings (setInterfaceTheme 7 freshConfiguration) ''ColorPalette'' = Some (VInt 0)
   \<and> ((-1::int) < 0 \<or> int (length kCutterInterfaceThemesList) \<le> -1)
   \<and> setInterfaceTheme (-1) freshConfiguration = setInterfaceTheme 0 freshConfiguration
   \<and> emitted (setInterfaceTheme (-1) freshConfiguration) = [InterfaceThemeChanged, ColorsUpdated]"
proof -
  have a: "(7::int) < 0 \<or> int (length kCutterInterfaceThemesList) \<le> 7"
    by (simp add: kCutterInterfaceThemesList_def)
  have b: "(-1::int) < 0 \<or> int (length kCutterInterfaceThemesList) \<le> -1"
    by simp
  have e: "emitted freshConfiguration = []"
    by (simp add: freshConfiguration_def)
  note high = setInterfaceTheme_out_of_range [OF a, of freshConfiguration]
  note low = setInterfaceTheme_out_of_range [OF b, of freshConfiguration]
  have h1: "setInterfaceTheme 7 freshConfiguration = setInterfaceTheme 0 freshConfiguration"
    using high by (rule conjunct1)
  have h2: "settings (setInterfaceTheme 7 freshConfiguration) ''ColorPalette'' = Some (VInt 0)"
    using high by blast
  have l1: "setInterfaceTheme (-1) freshConfiguration = setInterfaceTheme 0 freshConfiguration"
    using low by (rule conjunct1)
  have l2: "emitted (setInterfaceTheme (-1) freshConfiguration)
              = emitted freshConfiguration @ [InterfaceThemeChanged, ColorsUpdated]"
    using low by blast
  show ?thesis
    by (intro conjI a b h1 h2 l1) (simp add: l2 e)
qed

section \<open>Whether the window is dark\<close>

text \<open>
  C6. \<^verbatim>\<open>windowColorIsDark\<close> returns false when the current interface theme supports only
  the Light appearance and true when it supports only the Dark appearance; in particular
  it returns true after \<^verbatim>\<open>setInterfaceTheme(1)\<close>, whatever the window's colour. Otherwise
  it returns whether red + green + blue of the application's window colour is below 382.
  In terms of the stored index: 2 gives false, 1 gives true, 0 gives the test on the
  window colour, all three leaving the facade untouched; an index outside the registry
  makes \<^verbatim>\<open>getCurrentTheme\<close> select the Native theme first, so the window colour tested is
  the one of the native palette.
\<close>

theorem windowColorIsDark_by_theme:
  "(flag (fst (getCurrentTheme c)) = LightFlag \<longrightarrow> fst (windowColorIsDark c) = False)
   \<and> (flag (fst (getCurrentTheme c)) = DarkFlag \<longrightarrow> fst (windowColorIsDark c) = True)
   \<and> (flag (fst (getCurrentTheme c)) \<noteq> LightFlag \<and> flag (fst (getCurrentTheme c)) \<noteq> DarkFlag \<longrightarrow>
        fst (windowColorIsDark c) =
          (red (Window (palette (qApp (snd (getCurrentTheme c)))))
           + green (Window (palette (qApp (snd (getCurrentTheme c)))))
           + blue (Window (palette (qApp (snd (getCurrentTheme c))))) < 382))
   \<and> fst (windowColorIsDark (setInterfaceTheme 1 c)) = True
   \<and> (getInterfaceTheme c = 2 \<longrightarrow> windowColorIsDark c = (False, c))
   \<and> (getInterfaceTheme c = 1 \<longrightarrow> windowColorIsDark c = (True, c))
   \<and> (getInterfaceTheme c = 0 \<longrightarrow>
        windowColorIsDark c =
          (red (Window (palette (qApp c))) + green (Window (palette (qApp c)))
           + blue (Window (palette (qApp c))) < 382, c))
   \<and> (getInterfaceTheme c < 0 \<or> 3 \<le> getInterfaceTheme c \<longrightarrow>
        windowColorIsDark c =
          (red (Window (nativePalette c)) + green (Window (nativePalette c))
           + blue (Window (nativePalette c)) < 382, setInterfaceTheme 0 c))"
proof -
  obtain t c1 where g: "getCurrentTheme c = (t, c1)"
    by (cases "getCurrentTheme c")
  have light: "flag (fst (getCurrentTheme c)) = LightFlag \<longrightarrow> fst (windowColorIsDark c) = False"
    using g by (simp add: windowColorIsDark.simps)
  have dark: "flag (fst (getCurrentTheme c)) = DarkFlag \<longrightarrow> fst (windowColorIsDark c) = True"
    using g by (simp add: windowColorIsDark.simps LightFlag_def DarkFlag_def)
  have both: "flag (fst (getCurrentTheme c)) \<noteq> LightFlag \<and> flag (fst (getCurrentTheme c)) \<noteq> DarkFlag \<longrightarrow>
        fst (windowColorIsDark c) =
          (red (Window (palette (qApp (snd (getCurrentTheme c)))))
           + green (Window (palette (qApp (snd (getCurrentTheme c)))))
           + blue (Window (palette (qApp (snd (getCurrentTheme c))))) < 382)"
    using g by (simp add: windowColorIsDark.simps toRgb_def Let_def)
  have scen: "fst (windowColorIsDark (setInterfaceTheme 1 c)) = True"
    by (simp add: windowColorIsDark_valid getInterfaceTheme_setInterfaceTheme)
  have two: "getInterfaceTheme c = 2 \<longrightarrow> windowColorIsDark c = (False, c)"
    by (simp add: windowColorIsDark_valid)
  have one: "getInterfaceTheme c = 1 \<longrightarrow> windowColorIsDark c = (True, c)"
    by (simp add: windowColorIsDark_valid)
  have zero: "getInterfaceTheme c = 0 \<longrightarrow>
        windowColorIsDark c =
          (red (Window (palette (qApp c))) + green (Window (palette (qApp c)))
           + blue (Window (palette (qApp c))) < 382, c)"
    by (simp add: windowColorIsDark_valid)
  have out: "getInterfaceTheme c < 0 \<or> 3 \<le> getInterfaceTheme c \<longrightarrow>
        windowColorIsDark c =
          (red (Window (nativePalette c)) + green (Window (nativePalette c))
           + blue (Window (nativePalette c)) < 382, setInterfaceTheme 0 c)"
  proof
    assume "getInterfaceTheme c < 0 \<or> 3 \<le> getInterfaceTheme c"
    then have "getCurrentTheme c = (kCutterInterfaceThemesList ! 0, setInterfaceTheme 0 c)"
      by (rule getCurrentTheme_invalid)
    then show "windowColorIsDark c =
          (red (Window (nativePalette c)) + green (Window (nativePalette c))
           + blue (Window (nativePalette c)) < 382, setInterfaceTheme 0 c)"
      by (simp add: windowColorIsDark.simps kCutterInterfaceThemesList_def LightFlag_def
          DarkFlag_def or_flags_def toRgb_def Let_def setInterfaceTheme_zero_palette)
  qed
  show ?thesis
    by (intro conjI light dark both scen two one zero out)
qed

theorem windowColorIsDark_by_theme_witness:
  "getInterfaceTheme (s_setValue ''ColorPalette'' (VInt 2) nightConfiguration) = 2
   \<and> flag (fst (getCurrentTheme (s_setValue ''ColorPalette'' (VInt 2) nightConfiguration))) = LightFlag
   \<and> fst (windowColorIsDark (s_setValue ''ColorPalette'' (VInt 2) nightConfiguration)) = False
   \<and> getInterfaceTheme (s_setValue ''ColorPalette'' (VInt 1) freshConfiguration) = 1
   \<and> flag (fst (getCurrentTheme (s_setValue ''ColorPalette'' (VInt 1) freshConfiguration))) = DarkFlag
   \<and> fst (windowColorIsDark (s_setValue ''ColorPalette'' (VInt 1) freshConfiguration)) = True
   \<and> getInterfaceTheme freshConfiguration = 0
   \<and> fst (windowColorIsDark freshConfiguration) = False
   \<and> getInterfaceTheme nightConfiguration = 0
   \<and> flag (fst (getCurrentTheme nightConfiguration)) \<noteq> LightFlag
   \<and> flag (fst (getCurrentTheme nightConfiguration)) \<noteq> DarkFlag
   \<and> fst (windowColorIsDark nightConfiguration) = True
   \<and> getInterfaceTheme (s_setValue ''ColorPalette'' (VInt 9) nightConfiguration) = 9
   \<and> fst (windowColorIsDark (s_setValue ''ColorPalette'' (VInt 9) nightConfiguration)) = False"
proof -
  let ?L = "s_setValue ''ColorPalette'' (VInt 2) nightConfiguration"
  let ?D = "s_setValue ''ColorPalette'' (VInt 1) freshConfiguration"
  let ?O = "s_setValue ''ColorPalette'' (VInt 9) nightConfiguration"
  have iL: "getInterfaceTheme ?L = 2" and iD: "getInterfaceTheme ?D = 1"
    and iO: "getInterfaceTheme ?O = 9"
    by (simp_all add: getInterfaceTheme_written)
  have iF: "getInterfaceTheme freshConfiguration = 0"
    and iN: "getInterfaceTheme nightConfiguration = 0"
    by (simp_all add: getInterfaceTheme_def s_value_def freshConfiguration_def nightConfiguration_def)
  have fL: "flag (fst (getCurrentTheme ?L)) = LightFlag"
    by (simp add: getCurrentTheme_valid iL kCutterInterfaceThemesList_def)
  have fD: "flag (fst (getCurrentTheme ?D)) = DarkFlag"
    by (simp add: getCurrentTheme_valid iD kCutterInterfaceThemesList_def)
  have fN: "flag (fst (getCurrentTheme nightConfiguration)) \<noteq> LightFlag"
      "flag (fst (getCurrentTheme nightConfiguration)) \<noteq> DarkFlag"
      "snd (getCurrentTheme nightConfiguration) = nightConfiguration"
    by (simp_all add: getCurrentTheme_valid iN kCutterInterfaceThemesList_def
        LightFlag_def DarkFlag_def or_flags_def)
  have wL: "fst (windowColorIsDark ?L) = False"
    using windowColorIsDark_by_theme [of ?L] fL by blast
  have wD: "fst (windowColorIsDark ?D) = True"
    using windowColorIsDark_by_theme [of ?D] fD by blast
  have "windowColorIsDark freshConfiguration =
          (red (Window (palette (qApp freshConfiguration)))
           + green (Window (palette (qApp freshConfiguration)))
           + blue (Window (palette (qApp freshConfiguration))) < 382, freshConfiguration)"
    using windowColorIsDark_by_theme [of freshConfiguration] iF by blast
  moreover have "Window (palette (qApp freshConfiguration)) = Rgba 239 239 239 255"
    by (simp add: freshConfiguration_def)
  ultimately have wF: "fst (windowColorIsDark freshConfiguration) = False"
    by simp
  have "fst (windowColorIsDark nightConfiguration) =
          (red (Window (palette (qApp (snd (getCurrentTheme nightConfiguration)))))
           + green (Window (palette (qApp (snd (getCurrentTheme nightConfiguration)))))
           + blue (Window (palette (qApp (snd (getCurrentTheme nightConfiguration))))) < 382)"
    using windowColorIsDark_by_theme [of nightConfiguration] fN(1,2) by blast
  moreover have "Window (palette (qApp nightConfiguration)) = Rgba 30 30 30 255"
    by (simp add: nightConfiguration_def)
  ultimately have wN: "fst (windowColorIsDark nightConfiguration) = True"
    by (simp add: fN(3))
  have "windowColorIsDark ?O =
          (red (Window (nativePalette ?O)) + green (Window (nativePalette ?O))
           + blue (Window (nativePalette ?O)) < 382, setInterfaceTheme 0 ?O)"
    using windowColorIsDark_by_theme [of ?O] iO by simp
  moreover have "Window (nativePalette ?O) = Rgba 239 239 239 255"
    by (simp add: s_setValue_def nightConfiguration_def freshConfiguration_def)
  ultimately have wO: "fst (windowColorIsDark ?O) = False"
    by simp
  show ?thesis
    by (intro conjI iL fL wL iD fD wD iF wF iN fN(1,2) wN iO wO)
qed

section \<open>The last colour theme of an interface theme is not applied by the switch\<close>

text \<open>
  With the colour theme \<^verbatim>\<open>ayu\<close> current and \<^verbatim>\<open>solarized\<close> stored as the last theme of
  Dark, \<^verbatim>\<open>setInterfaceTheme(1)\<close> leaves \<^verbatim>\<open>ayu\<close> current, which is not what
  \<^verbatim>\<open>getLastThemeOf\<close> returns for Dark, and sends the engine no command.
\<close>

theorem setInterfaceTheme_restores_counterexample:
  "getColorTheme ''cutter'' (setInterfaceTheme 1 themedConfiguration) = ''ayu''
   \<and> getLastThemeOf ''cutter'' (setInterfaceTheme 1 themedConfiguration)
        (kCutterInterfaceThemesList ! 1) = ''solarized''
   \<and> getColorTheme ''cutter'' (setInterfaceTheme 1 themedConfiguration)
        \<noteq> getLastThemeOf ''cutter'' (setInterfaceTheme 1 themedConfiguration)
              (kCutterInterfaceThemesList ! 1)
   \<and> cmds (core (setInterfaceTheme 1 themedConfiguration)) = []"
proof -
  have t: "settings (setInterfaceTheme 1 themedConfiguration) ''theme'' = Some (VString ''ayu'')"
    by (simp add: setInterfaceTheme_other_key themedConfiguration_def)
  have l: "settings (setInterfaceTheme 1 themedConfiguration) ''lastThemeOf.Dark''
             = Some (VString ''solarized'')"
    by (simp add: setInterfaceTheme_other_key themedConfiguration_def)
  have e: "cmds (core (setInterfaceTheme 1 themedConfiguration)) = []"
    by (simp add: setInterfaceTheme_core themedConfiguration_def freshConfiguration_def)
  show ?thesis
    using t l e
    by (simp add: getColorTheme_def getLastThemeOf_def s_value_def kCutterInterfaceThemesList_def)
qed

text \<open>
  C3, as the code has it. Each interface theme \<open>T\<close> has one last colour theme, the name
  \<^verbatim>\<open>getLastThemeOf\<close> returns: the value stored under \<^verbatim>\<open>lastThemeOf.<T>\<close> (read as a string),
  or the current colour theme when nothing is stored there; the current colour theme is
  the name stored under \<^verbatim>\<open>theme\<close>, or the default name when nothing is stored. After
  \<^verbatim>\<open>setLastThemeOf(T, nm)\<close> it is \<open>nm\<close>, and the last theme of an interface theme with another
  name is not affected. \<^verbatim>\<open>setInterfaceTheme\<close> does not apply it: it leaves the current colour
  theme, the last colour theme of every interface theme and the engine as they were.
\<close>

theorem lastThemeOf_kept_by_setInterfaceTheme:
  "getLastThemeOf d (setLastThemeOf T nm c) T = nm
   \<and> (settings c (''lastThemeOf.'' @ name T) = Some v \<longrightarrow> getLastThemeOf d c T = toString v)
   \<and> (settings c (''lastThemeOf.'' @ name T) = None \<longrightarrow>
        getLastThemeOf d c T = getColorTheme d c)
   \<and> (settings c ''theme'' = Some (VString t) \<longrightarrow> getColorTheme d c = t)
   \<and> (settings c ''theme'' = None \<longrightarrow> getColorTheme d c = d)
   \<and> (name T' \<noteq> name T \<longrightarrow>
        getLastThemeOf d (setLastThemeOf T nm c) T' = getLastThemeOf d c T')
   \<and> getColorTheme d (setLastThemeOf T nm c) = getColorTheme d c
   \<and> getColorTheme d (setInterfaceTheme i c) = getColorTheme d c
   \<and> getLastThemeOf d (setInterfaceTheme i c) T = getLastThemeOf d c T
   \<and> core (setInterfaceTheme i c) = core c"
proof -
  have a: "getLastThemeOf d (setLastThemeOf T nm c) T = nm"
    by (simp add: getLastThemeOf_def setLastThemeOf_def s_value_def s_setValue_def)
  have stored: "settings c (''lastThemeOf.'' @ name T) = Some v \<longrightarrow>
        getLastThemeOf d c T = toString v"
    by (simp add: getLastThemeOf_def s_value_def del: append.simps)
  have fallback: "settings c (''lastThemeOf.'' @ name T) = None \<longrightarrow>
        getLastThemeOf d c T = getColorTheme d c"
    by (simp add: getLastThemeOf_def s_value_def del: append.simps)
  have cur: "settings c ''theme'' = Some (VString t) \<longrightarrow> getColorTheme d c = t"
    by (simp add: getColorTheme_def s_value_def)
  have dfl: "settings c ''theme'' = None \<longrightarrow> getColorTheme d c = d"
    by (simp add: getColorTheme_def s_value_def)
  have b: "name T' \<noteq> name T \<longrightarrow>
        getLastThemeOf d (setLastThemeOf T nm c) T' = getLastThemeOf d c T'"
    by (simp add: getLastThemeOf_def setLastThemeOf_def s_value_def s_setValue_def
        getColorTheme_def)
  have c': "getColorTheme d (setLastThemeOf T nm c) = getColorTheme d c"
    by (simp add: setLastThemeOf_def s_value_def s_setValue_def getColorTheme_def)
  have th: "settings (setInterfaceTheme i c) ''theme'' = settings c ''theme''"
    by (simp add: setInterfaceTheme_other_key)
  have la: "settings (setInterfaceTheme i c) (''lastThemeOf.'' @ name T)
              = settings c (''lastThemeOf.'' @ name T)"
    by (simp add: setInterfaceTheme_other_key)
  have d': "getColorTheme d (setInterfaceTheme i c) = getColorTheme d c"
    by (simp add: getColorTheme_def s_value_def th)
  have e: "getLastThemeOf d (setInterfaceTheme i c) T = getLastThemeOf d c T"
    by (simp add: getLastThemeOf_def s_value_def la d' del: append.simps)
  show ?thesis
    by (intro conjI a stored fallback cur dfl b c' d' e setInterfaceTheme_core)
qed

theorem lastThemeOf_kept_by_setInterfaceTheme_witness:
  "settings themedConfiguration (''lastThemeOf.'' @ name (kCutterInterfaceThemesList ! 1))
     = Some (VString ''solarized'')
   \<and> getLastThemeOf ''cutter'' themedConfiguration (kCutterInterfaceThemesList ! 1) = ''solarized''
   \<and> settings themedConfiguration (''lastThemeOf.'' @ name (kCutterInterfaceThemesList ! 2)) = None
   \<and> settings themedConfiguration ''theme'' = Some (VString ''ayu'')
   \<and> getLastThemeOf ''cutter'' themedConfiguration (kCutterInterfaceThemesList ! 2) = ''ayu''
   \<and> settings freshConfiguration (''lastThemeOf.'' @ name (kCutterInterfaceThemesList ! 2)) = None
   \<and> settings freshConfiguration ''theme'' = None
   \<and> getLastThemeOf ''cutter'' freshConfiguration (kCutterInterfaceThemesList ! 2) = ''cutter''
   \<and> name (kCutterInterfaceThemesList ! 2) \<noteq> name (kCutterInterfaceThemesList ! 1)
   \<and> getLastThemeOf ''cutter''
         (setLastThemeOf (kCutterInterfaceThemesList ! 1) ''zenburn'' themedConfiguration)
         (kCutterInterfaceThemesList ! 1) = ''zenburn''
   \<and> getLastThemeOf ''cutter''
         (setLastThemeOf (kCutterInterfaceThemesList ! 1) ''zenburn'' themedConfiguration)
         (kCutterInterfaceThemesList ! 2) = ''ayu''
   \<and> getColorTheme ''cutter'' (setInterfaceTheme 2 themedConfiguration) = ''ayu''"
proof -
  let ?Dark = "kCutterInterfaceThemesList ! 1" and ?Light = "kCutterInterfaceThemesList ! 2"
  have n: "name ?Light \<noteq> name ?Dark"
    by (simp add: kCutterInterfaceThemesList_def)
  have sD: "settings themedConfiguration (''lastThemeOf.'' @ name ?Dark) = Some (VString ''solarized'')"
    and sL: "settings themedConfiguration (''lastThemeOf.'' @ name ?Light) = None"
    and sT: "settings themedConfiguration ''theme'' = Some (VString ''ayu'')"
    by (simp_all add: themedConfiguration_def kCutterInterfaceThemesList_def)
  have fL: "settings freshConfiguration (''lastThemeOf.'' @ name ?Light) = None"
    and fT: "settings freshConfiguration ''theme'' = None"
    by (simp_all add: freshConfiguration_def)
  note dark = lastThemeOf_kept_by_setInterfaceTheme
      [where d = "''cutter''" and T = ?Dark and nm = "''zenburn''" and c = themedConfiguration
         and T' = ?Light and i = 2 and v = "VString ''solarized''" and t = "''ayu''"]
  note light = lastThemeOf_kept_by_setInterfaceTheme
      [where d = "''cutter''" and T = ?Light and nm = "''zenburn''" and c = themedConfiguration
         and T' = ?Dark and i = 2 and v = "VString ''solarized''" and t = "''ayu''"]
  note fresh = lastThemeOf_kept_by_setInterfaceTheme
      [where d = "''cutter''" and T = ?Light and nm = "''zenburn''" and c = freshConfiguration
         and T' = ?Dark and i = 2 and v = "VString ''solarized''" and t = "''ayu''"]
  have "getLastThemeOf ''cutter'' themedConfiguration ?Dark = toString (VString ''solarized'')"
    using dark sD by blast
  then have gD: "getLastThemeOf ''cutter'' themedConfiguration ?Dark = ''solarized''"
    by simp
  have cur: "getColorTheme ''cutter'' themedConfiguration = ''ayu''"
    using light sT by blast
  have "getLastThemeOf ''cutter'' themedConfiguration ?Light = getColorTheme ''cutter'' themedConfiguration"
    using light sL by blast
  then have gL: "getLastThemeOf ''cutter'' themedConfiguration ?Light = ''ayu''"
    by (simp only: cur)
  have "getColorTheme ''cutter'' freshConfiguration = ''cutter''"
    using fresh fT by blast
  moreover have "getLastThemeOf ''cutter'' freshConfiguration ?Light
                   = getColorTheme ''cutter'' freshConfiguration"
    using fresh fL by blast
  ultimately have gF: "getLastThemeOf ''cutter'' freshConfiguration ?Light = ''cutter''"
    by simp
  have a: "getLastThemeOf ''cutter'' (setLastThemeOf ?Dark ''zenburn'' themedConfiguration) ?Dark
             = ''zenburn''"
    using dark by (rule conjunct1)
  have "getLastThemeOf ''cutter'' (setLastThemeOf ?Dark ''zenburn'' themedConfiguration) ?Light
        = getLastThemeOf ''cutter'' themedConfiguration ?Light"
    using dark n by blast
  then have b: "getLastThemeOf ''cutter'' (setLastThemeOf ?Dark ''zenburn'' themedConfiguration) ?Light
        = ''ayu''"
    by (simp only: gL)
  have "getColorTheme ''cutter'' (setInterfaceTheme 2 themedConfiguration)
          = getColorTheme ''cutter'' themedConfiguration"
    using dark by blast
  then have c: "getColorTheme ''cutter'' (setInterfaceTheme 2 themedConfiguration) = ''ayu''"
    by (simp only: cur)
  show ?thesis
    by (intro conjI sD gD sL sT gL fL fT gF n a b c)
qed

section \<open>Which colour themes bring the interface theme's colours back\<close>

text \<open>
  For the custom theme \<^verbatim>\<open>MyCustom\<close>, \<^verbatim>\<open>setColorTheme\<close> does not call
  \<^verbatim>\<open>setInterfaceTheme\<close>: on an empty store no navigation-bar colour of the interface theme
  appears and the only notification is the final one; after the Dark theme was loaded, the
  theme's own colour replaces the one Dark had set for the empty part of the navigation bar.
\<close>

theorem setColorTheme_custom_counterexample:
  "isCustomTheme customWorker ''MyCustom''
   \<and> \<not> s_contains (setColorTheme customWorker ''MyCustom'' freshConfiguration) ''colors.gui.navbar.seek''
   \<and> emitted (setColorTheme customWorker ''MyCustom'' freshConfiguration) = [ColorsUpdated]
   \<and> settings (setInterfaceTheme 1 freshConfiguration) ''colors.gui.navbar.empty''
        = Some (VColor (Rgba 100 100 100 255))
   \<and> settings (setColorTheme customWorker ''MyCustom'' (setInterfaceTheme 1 freshConfiguration))
          ''colors.gui.navbar.empty''
        = Some (VColor (Rgba 1 2 3 255))"
proof -
  have a: "isCustomTheme customWorker ''MyCustom''"
    by (simp add: customWorker_def)
  have b: "\<not> s_contains (setColorTheme customWorker ''MyCustom'' freshConfiguration) ''colors.gui.navbar.seek''"
    by (simp add: setColorTheme_def customWorker_def applyThemeColor_def Let_def setColor_def
        s_setValue_def s_contains_def emit_def QColor4_def freshConfiguration_def)
  have c: "emitted (setColorTheme customWorker ''MyCustom'' freshConfiguration) = [ColorsUpdated]"
    by (simp add: setColorTheme_def customWorker_def applyThemeColor_def Let_def setColor_def
        s_setValue_def emit_def QColor4_def freshConfiguration_def)
  have d: "settings (setInterfaceTheme 1 freshConfiguration) ''colors.gui.navbar.empty''
        = Some (VColor (Rgba 100 100 100 255))"
    by (simp add: setInterfaceTheme_navbar_empty)
  have e: "settings (setColorTheme customWorker ''MyCustom'' (setInterfaceTheme 1 freshConfiguration))
          ''colors.gui.navbar.empty''
        = Some (VColor (Rgba 1 2 3 255))"
    by (simp add: setColorTheme_def customWorker_def applyThemeColor_def Let_def setColor_def
        s_setValue_def emit_def QColor4_def)
  show ?thesis
    by (intro conjI a b c d e)
qed

text \<open>
  C2, as the code has it. For every theme name \<open>t\<close> that is not a custom theme,
  \<^verbatim>\<open>setColorTheme(t)\<close>, after the command to the engine and after writing the colours the
  engine reports, calls \<^verbatim>\<open>setInterfaceTheme\<close> with the current index, so the colours of
  the interface theme are in the store again (the empty part of the navigation bar has the
  interface theme's colour), and then emits the colours-updated notification. For a custom
  theme the call is not made: the facade is the one after the loop, with the one
  notification.
\<close>

theorem setColorTheme_retriggers_for_standard:
  "(\<not> isCustomTheme tw t \<longrightarrow>
      setColorTheme tw t c =
        emit ColorsUpdated
          (setInterfaceTheme (getInterfaceTheme c)
             (fold applyThemeColor
                (getTheme tw (Core_cmd (if t = ''default'' then ''ecd'' else ''eco '' @ t) (core c)) t)
                (s_setValue ''theme'' (VString t)
                   (c\<lparr>core := Core_cmd (if t = ''default'' then ''ecd'' else ''eco '' @ t) (core c)\<rparr>))))
      \<and> settings (setColorTheme tw t c) ''colors.gui.navbar.empty'' =
          Some (VColor (if getInterfaceTheme c = 2 then Rgba 220 236 245 255
                        else Rgba 100 100 100 255))
      \<and> emitted (setColorTheme tw t c)
          = emitted c @ [InterfaceThemeChanged, ColorsUpdated, ColorsUpdated])
   \<and> (isCustomTheme tw t \<longrightarrow>
      setColorTheme tw t c =
        emit ColorsUpdated
          (fold applyThemeColor
             (getTheme tw (Core_cmd (if t = ''default'' then ''ecd'' else ''eco '' @ t) (core c)) t)
             (s_setValue ''theme'' (VString t)
                (c\<lparr>core := Core_cmd (if t = ''default'' then ''ecd'' else ''eco '' @ t) (core c)\<rparr>)))
      \<and> emitted (setColorTheme tw t c) = emitted c @ [ColorsUpdated])"
proof -
  let ?e = "Core_cmd (if t = ''default'' then ''ecd'' else ''eco '' @ t) (core c)"
  let ?c1 = "s_setValue ''theme'' (VString t) (c\<lparr>core := ?e\<rparr>)"
  let ?c2 = "fold applyThemeColor (getTheme tw ?e t) ?c1"
  have idx: "getInterfaceTheme (fold applyThemeColor xs (s_setValue ''theme'' v (c\<lparr>core := e\<rparr>)))
               = getInterfaceTheme c" for xs v e
    by (simp add: getInterfaceTheme_def s_value_def fold_applyThemeColor_other_key s_setValue_def)
  have em: "emitted ?c2 = emitted c"
    by (simp add: fold_applyThemeColor_frame s_setValue_def)
  have c1: "core ?c1 = ?e"
    by (simp add: s_setValue_def)
  have custom: "isCustomTheme tw t \<Longrightarrow> setColorTheme tw t c = emit ColorsUpdated ?c2"
    by (simp add: setColorTheme_def Let_def frame_core del: append.simps)
  have standard: "\<not> isCustomTheme tw t \<Longrightarrow>
      setColorTheme tw t c = emit ColorsUpdated (setInterfaceTheme (getInterfaceTheme c) ?c2)"
    by (simp add: setColorTheme_def Let_def frame_core idx del: append.simps)
  have nav: "settings (emit ColorsUpdated (setInterfaceTheme (getInterfaceTheme c) ?c2))
               ''colors.gui.navbar.empty'' =
          Some (VColor (if getInterfaceTheme c = 2 then Rgba 220 236 245 255
                        else Rgba 100 100 100 255))"
    by (simp only: frame_settings setInterfaceTheme_navbar_empty)
  have em2: "emitted (emit ColorsUpdated (setInterfaceTheme (getInterfaceTheme c) ?c2))
          = emitted c @ [InterfaceThemeChanged, ColorsUpdated, ColorsUpdated]"
    by (simp add: emit_def setInterfaceTheme_emitted em)
  have em1: "emitted (emit ColorsUpdated ?c2) = emitted c @ [ColorsUpdated]"
    by (simp add: emit_def em)
  show ?thesis
    using custom standard nav em2 em1 by presburger
qed

theorem setColorTheme_retriggers_for_standard_witness:
  "\<not> isCustomTheme customWorker ''ayu''
   \<and> settings (setColorTheme customWorker ''ayu'' freshConfiguration) ''colors.gui.navbar.empty''
        = Some (VColor (Rgba 100 100 100 255))
   \<and> emitted (setColorTheme customWorker ''ayu'' freshConfiguration)
        = [InterfaceThemeChanged, ColorsUpdated, ColorsUpdated]
   \<and> isCustomTheme customWorker ''MyCustom''
   \<and> emitted (setColorTheme customWorker ''MyCustom'' freshConfiguration) = [ColorsUpdated]"
proof -
  have s: "\<not> isCustomTheme customWorker ''ayu''" and m: "isCustomTheme customWorker ''MyCustom''"
    by (simp_all add: customWorker_def)
  have i: "getInterfaceTheme freshConfiguration \<noteq> 2" and e: "emitted freshConfiguration = []"
    by (simp_all add: getInterfaceTheme_def s_value_def freshConfiguration_def)
  note std = setColorTheme_retriggers_for_standard [of customWorker "''ayu''" freshConfiguration]
  note cus = setColorTheme_retriggers_for_standard [of customWorker "''MyCustom''" freshConfiguration]
  have a: "settings (setColorTheme customWorker ''ayu'' freshConfiguration) ''colors.gui.navbar.empty''
        = Some (VColor (if getInterfaceTheme freshConfiguration = 2 then Rgba 220 236 245 255
                        else Rgba 100 100 100 255))"
    using std s by blast
  have b: "emitted (setColorTheme customWorker ''ayu'' freshConfiguration)
        = emitted freshConfiguration @ [InterfaceThemeChanged, ColorsUpdated, ColorsUpdated]"
    using std s by blast
  have c: "emitted (setColorTheme customWorker ''MyCustom'' freshConfiguration)
        = emitted freshConfiguration @ [ColorsUpdated]"
    using cus m by blast
  show ?thesis
    using s m a b c i e by simp
qed

section \<open>The first-execution flag is written by the accessor that reads it\<close>

lemma isFirstExecution_calls_present:
  "s_contains c ''firstExecution'' \<Longrightarrow> isFirstExecution_calls n c = (replicate n False, c)"
  by (induction n) (simp_all add: isFirstExecution_def)

text \<open>
  C10. \<^verbatim>\<open>isFirstExecution\<close> returns true exactly when the durable store does not contain the
  key \<^verbatim>\<open>firstExecution\<close>; after the call the key is in the store (written with the value
  false when it was missing, the facade being otherwise untouched), so a second call returns
  false, and of any number of calls in a row only the first can return true.
\<close>

theorem isFirstExecution_once:
  "fst (isFirstExecution c) = (\<not> s_contains c ''firstExecution'')
   \<and> s_contains (snd (isFirstExecution c)) ''firstExecution''
   \<and> snd (isFirstExecution c) =
       (if s_contains c ''firstExecution'' then c
        else c\<lparr>settings := (settings c)(''firstExecution'' \<mapsto> VBool False)\<rparr>)
   \<and> fst (isFirstExecution (snd (isFirstExecution c))) = False
   \<and> fst (isFirstExecution_calls (Suc n) c)
       = (\<not> s_contains c ''firstExecution'') # replicate n False"
proof -
  have present: "s_contains (snd (isFirstExecution c)) ''firstExecution''"
    by (simp add: isFirstExecution_def s_contains_def s_setValue_def)
  have "isFirstExecution_calls n (snd (isFirstExecution c))
          = (replicate n False, snd (isFirstExecution c))"
    using present by (rule isFirstExecution_calls_present)
  then have calls: "fst (isFirstExecution_calls (Suc n) c)
       = (\<not> s_contains c ''firstExecution'') # replicate n False"
    by (simp add: isFirstExecution_def split: prod.splits if_splits)
  show ?thesis
    using present calls
    by (simp add: isFirstExecution_def s_setValue_def)
qed

theorem isFirstExecution_once_witness:
  "fst (isFirstExecution freshConfiguration)
   \<and> fst (isFirstExecution_calls (Suc 2) freshConfiguration) = [True, False, False]
   \<and> settings (snd (isFirstExecution freshConfiguration)) ''firstExecution'' = Some (VBool False)"
  using isFirstExecution_once [of freshConfiguration 2]
  by (simp add: s_contains_def freshConfiguration_def numeral_2_eq_2)

section \<open>Writing an option\<close>

text \<open>
  C9. \<^verbatim>\<open>setConfig(k, v)\<close> hands \<open>(k, v)\<close> to the engine whatever \<open>k\<close> is. When \<open>k\<close> is a key
  of the catalog it also writes \<open>v\<close> under \<open>k\<close> in the durable store, and nothing else
  changes; when \<open>k\<close> is not a key of the catalog only the engine changes, and the durable
  store is exactly what it was.
\<close>

theorem setConfig_forwards_and_persists:
  "core (setConfig k v c) = Core_setConfig k v (core c)
   \<and> (k \<in> fst ` set asmOptions \<longrightarrow>
        setConfig k v c = c\<lparr>settings := (settings c)(k \<mapsto> v), core := Core_setConfig k v (core c)\<rparr>)
   \<and> (k \<notin> fst ` set asmOptions \<longrightarrow>
        setConfig k v c = c\<lparr>core := Core_setConfig k v (core c)\<rparr>
        \<and> settings (setConfig k v c) = settings c)"
  by (simp add: setConfig_def s_setValue_def Let_def map_of_eq_None_iff)

theorem setConfig_forwards_and_persists_witness:
  "''asm.lines'' \<in> fst ` set asmOptions
   \<and> settings (setConfig ''asm.lines'' (VBool False) freshConfiguration) ''asm.lines'' = Some (VBool False)
   \<and> ''scr.color'' \<notin> fst ` set asmOptions
   \<and> settings (setConfig ''scr.color'' (VInt 1) freshConfiguration) = Map.empty
   \<and> config (core (setConfig ''scr.color'' (VInt 1) freshConfiguration)) ''scr.color'' = Some (VInt 1)"
proof -
  have r: "''asm.lines'' \<in> fst ` set asmOptions" by (simp add: asmOptions_def)
  have u: "''scr.color'' \<notin> fst ` set asmOptions" by (simp add: asmOptions_def)
  show ?thesis
    using r u setConfig_forwards_and_persists [of "''asm.lines''" "VBool False" freshConfiguration]
      setConfig_forwards_and_persists [of "''scr.color''" "VInt 1" freshConfiguration]
    by (simp add: freshConfiguration_def Core_setConfig_def)
qed

section \<open>Reading an option back\<close>

text \<open>
  C4. For every key \<open>k\<close> of the catalog, with default \<open>d\<close>, and every value \<open>v\<close>:
  \<^verbatim>\<open>getConfigVar(k)\<close> after \<^verbatim>\<open>setConfig(k, v)\<close> is what the engine holds under \<open>k\<close>, read as
  a bool, an int or a string according to the type of \<open>d\<close>; when \<open>v\<close> has the type of \<open>d\<close>,
  that is \<open>v\<close> itself.
\<close>

theorem setConfig_getConfigVar_roundtrip:
  "map_of asmOptions k = Some d \<Longrightarrow>
     getConfigVar (setConfig k v c) k =
       (case qvariant_type d of
          TBool \<Rightarrow> VBool (toBool v)
        | TInt \<Rightarrow> VInt (toInt v)
        | _ \<Rightarrow> VString (toString v))
     \<and> (qvariant_type v = qvariant_type d \<longrightarrow> getConfigVar (setConfig k v c) k = v)"
proof -
  assume k: "map_of asmOptions k = Some d"
  have rd: "Core_read (core (setConfig k v c)) k = v"
    by (simp add: setConfig_def Let_def Core_setConfig_def Core_read_def s_setValue_def)
  have co: "getConfigVar (setConfig k v c) k =
       (case qvariant_type d of
          TBool \<Rightarrow> VBool (toBool v)
        | TInt \<Rightarrow> VInt (toInt v)
        | _ \<Rightarrow> VString (toString v))"
    using k
    by (simp add: getConfigVar_def Core_getConfigb_def Core_getConfigi_def Core_getConfig_def rd
        split: QVariantType.split)
  have ty: "qvariant_type d \<in> {TBool, TInt, TString}"
    using k by (rule asmOptions_types)
  have "qvariant_type v = qvariant_type d \<longrightarrow> getConfigVar (setConfig k v c) k = v"
    using ty co by (cases v) auto
  with co show ?thesis by simp
qed

theorem setConfig_getConfigVar_roundtrip_witness:
  "map_of asmOptions ''asm.cmt.col'' = Some (VInt 35)
   \<and> qvariant_type (VInt 40) = qvariant_type (VInt 35)
   \<and> getConfigVar (setConfig ''asm.cmt.col'' (VInt 40) freshConfiguration) ''asm.cmt.col'' = VInt 40
   \<and> map_of asmOptions ''asm.syntax'' = Some (VString ''intel'')
   \<and> getConfigVar (setConfig ''asm.syntax'' (VString ''att'') freshConfiguration) ''asm.syntax''
        = VString ''att''
   \<and> map_of asmOptions ''asm.esil'' = Some (VBool False)
   \<and> getConfigVar (setConfig ''asm.esil'' (VBool True) freshConfiguration) ''asm.esil'' = VBool True"
proof -
  have a: "map_of asmOptions ''asm.cmt.col'' = Some (VInt 35)"
    and b: "map_of asmOptions ''asm.syntax'' = Some (VString ''intel'')"
    and c: "map_of asmOptions ''asm.esil'' = Some (VBool False)"
    by (simp_all add: asmOptions_def)
  show ?thesis
    using a b c
      setConfig_getConfigVar_roundtrip [OF a, of "VInt 40" freshConfiguration]
      setConfig_getConfigVar_roundtrip [OF b, of "VString ''att''" freshConfiguration]
      setConfig_getConfigVar_roundtrip [OF c, of "VBool True" freshConfiguration]
    by simp
qed

section \<open>Resetting the options and applying the saved ones\<close>

text \<open>
  C7. \<^verbatim>\<open>resetToDefaultAsmOptions\<close> hands every entry of the catalog, with its compiled-in
  default, to the engine, and writes it into the durable store as well: after it, every key
  of the catalog is in the durable store, and in the engine, with its default value;
  nothing is cleared, and the keys outside the catalog are as they were.
\<close>

theorem resetToDefaultAsmOptions_commits_defaults:
  "resetToDefaultAsmOptions c =
     c\<lparr>settings := settings c ++ map_of asmOptions,
       core := fold (\<lambda>(key, dflt). Core_setConfig key dflt) asmOptions (core c)\<rparr>
   \<and> ((k, d) \<in> set asmOptions \<longrightarrow>
        settings (resetToDefaultAsmOptions c) k = Some d
        \<and> config (core (resetToDefaultAsmOptions c)) k = Some d)
   \<and> (k \<notin> fst ` set asmOptions \<longrightarrow>
        settings (resetToDefaultAsmOptions c) k = settings c k
        \<and> config (core (resetToDefaultAsmOptions c)) k = config (core c) k)"
proof -
  have closed: "resetToDefaultAsmOptions c =
     c\<lparr>settings := settings c ++ map_of asmOptions,
       core := (core c)\<lparr>config := config (core c) ++ map_of asmOptions\<rparr>\<rparr>"
    unfolding resetToDefaultAsmOptions_def
    by (rule fold_setConfig_closed) (simp_all add: asmOptions_distinct)
  have engine: "fold (\<lambda>(key, dflt). Core_setConfig key dflt) asmOptions (core c)
                  = (core c)\<lparr>config := config (core c) ++ map_of asmOptions\<rparr>"
    by (rule fold_Core_setConfig_closed) (rule asmOptions_distinct)
  have a: "resetToDefaultAsmOptions c =
     c\<lparr>settings := settings c ++ map_of asmOptions,
       core := fold (\<lambda>(key, dflt). Core_setConfig key dflt) asmOptions (core c)\<rparr>"
    by (simp only: closed engine)
  have b: "(k, d) \<in> set asmOptions \<longrightarrow>
        settings (resetToDefaultAsmOptions c) k = Some d
        \<and> config (core (resetToDefaultAsmOptions c)) k = Some d"
  proof
    assume "(k, d) \<in> set asmOptions"
    then have "map_of asmOptions k = Some d"
      using asmOptions_distinct by simp
    then show "settings (resetToDefaultAsmOptions c) k = Some d
        \<and> config (core (resetToDefaultAsmOptions c)) k = Some d"
      by (simp add: closed map_add_def)
  qed
  have c': "k \<notin> fst ` set asmOptions \<longrightarrow>
        settings (resetToDefaultAsmOptions c) k = settings c k
        \<and> config (core (resetToDefaultAsmOptions c)) k = config (core c) k"
  proof
    assume "k \<notin> fst ` set asmOptions"
    then have "map_of asmOptions k = None"
      by (simp add: map_of_eq_None_iff)
    then show "settings (resetToDefaultAsmOptions c) k = settings c k
        \<and> config (core (resetToDefaultAsmOptions c)) k = config (core c) k"
      by (simp add: closed map_add_def)
  qed
  show ?thesis
    by (intro conjI a b c')
qed

theorem resetToDefaultAsmOptions_commits_defaults_witness:
  "(''asm.tabs'', VInt 5) \<in> set asmOptions
   \<and> settings (s_setValue ''asm.tabs'' (VInt 8) freshConfiguration) ''asm.tabs'' = Some (VInt 8)
   \<and> settings (resetToDefaultAsmOptions (s_setValue ''asm.tabs'' (VInt 8) freshConfiguration))
        ''asm.tabs'' = Some (VInt 5)
   \<and> config (core (resetToDefaultAsmOptions (s_setValue ''asm.tabs'' (VInt 8) freshConfiguration)))
        ''asm.tabs'' = Some (VInt 5)
   \<and> ''font'' \<notin> fst ` set asmOptions
   \<and> settings (resetToDefaultAsmOptions (s_setValue ''asm.tabs'' (VInt 8) freshConfiguration))
        ''font'' = None"
proof -
  let ?c = "s_setValue ''asm.tabs'' (VInt 8) freshConfiguration"
  have i: "(''asm.tabs'', VInt 5) \<in> set asmOptions" and o: "''font'' \<notin> fst ` set asmOptions"
    by (simp_all add: asmOptions_def)
  have s: "settings ?c ''asm.tabs'' = Some (VInt 8)" "settings ?c ''font'' = None"
    by (simp_all add: s_setValue_def freshConfiguration_def)
  note t1 = resetToDefaultAsmOptions_commits_defaults [of ?c "''asm.tabs''" "VInt 5"]
  note t2 = resetToDefaultAsmOptions_commits_defaults [of ?c "''font''" "VInt 5"]
  have a: "settings (resetToDefaultAsmOptions ?c) ''asm.tabs'' = Some (VInt 5)"
    using t1 i by blast
  have b: "config (core (resetToDefaultAsmOptions ?c)) ''asm.tabs'' = Some (VInt 5)"
    using t1 i by blast
  have "settings (resetToDefaultAsmOptions ?c) ''font'' = settings ?c ''font''"
    using t2 o by blast
  then have c: "settings (resetToDefaultAsmOptions ?c) ''font'' = None"
    by (simp only: s(2))
  show ?thesis
    by (intro conjI i o s(1) a b c)
qed

text \<open>
  C8. A second \<^verbatim>\<open>applySavedAsmOptions\<close> right after the first leaves the facade, the engine
  included, as the first left it. One call hands the engine, for each key of the catalog,
  the value the durable store holds under the key, or the compiled-in default when it holds
  none; the options of the engine outside the catalog, and the durable store, are not
  modified.
\<close>

theorem applySavedAsmOptions_idempotent:
  "applySavedAsmOptions (applySavedAsmOptions c) = applySavedAsmOptions c
   \<and> applySavedAsmOptions c =
       c\<lparr>core := fold (\<lambda>(key, dflt). Core_setConfig key (s_value c key dflt)) asmOptions (core c)\<rparr>
   \<and> settings (applySavedAsmOptions c) = settings c
   \<and> ((k, d) \<in> set asmOptions \<longrightarrow>
        config (core (applySavedAsmOptions c)) k
          = Some (case settings c k of None \<Rightarrow> d | Some v \<Rightarrow> v))
   \<and> (k \<notin> fst ` set asmOptions \<longrightarrow>
        config (core (applySavedAsmOptions c)) k = config (core c) k)"
proof -
  let ?g = "\<lambda>c. (\<lambda>(key, dflt). (key, s_value c key dflt))"
  have closed: "applySavedAsmOptions c =
      c\<lparr>core := (core c)\<lparr>config := config (core c) ++ map_of (map (?g c) asmOptions)\<rparr>\<rparr>" for c
    unfolding applySavedAsmOptions_def
    by (rule fold_applySaved_closed) (rule asmOptions_distinct)
  have keys: "map fst (map (?g c) asmOptions) = map fst asmOptions"
    by (simp add: case_prod_unfold comp_def)
  have "fold (\<lambda>(key, v). Core_setConfig key v) (map (?g c) asmOptions) (core c)
          = (core c)\<lparr>config := config (core c) ++ map_of (map (?g c) asmOptions)\<rparr>"
    by (rule fold_Core_setConfig_closed) (simp only: keys asmOptions_distinct)
  moreover have "fold (\<lambda>(key, v). Core_setConfig key v) (map (?g c) asmOptions) (core c)
          = fold (\<lambda>(key, dflt). Core_setConfig key (s_value c key dflt)) asmOptions (core c)"
    by (simp add: fold_map comp_def case_prod_unfold)
  ultimately have b: "applySavedAsmOptions c =
       c\<lparr>core := fold (\<lambda>(key, dflt). Core_setConfig key (s_value c key dflt)) asmOptions (core c)\<rparr>"
    by (simp add: closed)
  have st: "settings (applySavedAsmOptions c) = settings c"
    by (simp add: closed)
  have sv: "s_value (applySavedAsmOptions c) = s_value c"
    by (intro ext) (simp add: s_value_def st)
  have a: "applySavedAsmOptions (applySavedAsmOptions c) = applySavedAsmOptions c"
    by (simp add: closed [of "applySavedAsmOptions c"] sv) (simp add: closed [of c] map_add_twice)
  have d': "(k, d) \<in> set asmOptions \<longrightarrow>
        config (core (applySavedAsmOptions c)) k
          = Some (case settings c k of None \<Rightarrow> d | Some v \<Rightarrow> v)"
  proof
    assume "(k, d) \<in> set asmOptions"
    then have "(k, s_value c k d) \<in> set (map (?g c) asmOptions)"
      by force
    moreover have "distinct (map fst (map (?g c) asmOptions))"
      by (simp only: keys asmOptions_distinct)
    ultimately have "map_of (map (?g c) asmOptions) k = Some (s_value c k d)"
      by (rule map_of_is_SomeI [rotated])
    then show "config (core (applySavedAsmOptions c)) k
          = Some (case settings c k of None \<Rightarrow> d | Some v \<Rightarrow> v)"
      by (simp add: closed map_add_def s_value_def)
  qed
  have e: "k \<notin> fst ` set asmOptions \<longrightarrow>
        config (core (applySavedAsmOptions c)) k = config (core c) k"
  proof
    assume "k \<notin> fst ` set asmOptions"
    then have "k \<notin> fst ` set (map (?g c) asmOptions)"
      by force
    then have "map_of (map (?g c) asmOptions) k = None"
      by (simp only: map_of_eq_None_iff simp_thms)
    then show "config (core (applySavedAsmOptions c)) k = config (core c) k"
      by (simp add: closed map_add_def)
  qed
  show ?thesis
    by (intro conjI a b st d' e)
qed

theorem applySavedAsmOptions_idempotent_witness:
  "(''asm.tabs'', VInt 5) \<in> set asmOptions
   \<and> config (core (applySavedAsmOptions (s_setValue ''asm.tabs'' (VInt 8) freshConfiguration)))
        ''asm.tabs'' = Some (VInt 8)
   \<and> (''asm.nbytes'', VInt 10) \<in> set asmOptions
   \<and> config (core (applySavedAsmOptions (s_setValue ''asm.tabs'' (VInt 8) freshConfiguration)))
        ''asm.nbytes'' = Some (VInt 10)
   \<and> ''scr.color'' \<notin> fst ` set asmOptions
   \<and> config (core (applySavedAsmOptions (s_setValue ''asm.tabs'' (VInt 8) freshConfiguration)))
        ''scr.color'' = None
   \<and> applySavedAsmOptions (applySavedAsmOptions (s_setValue ''asm.tabs'' (VInt 8) freshConfiguration))
        = applySavedAsmOptions (s_setValue ''asm.tabs'' (VInt 8) freshConfiguration)"
proof -
  let ?c = "s_setValue ''asm.tabs'' (VInt 8) freshConfiguration"
  have i: "(''asm.tabs'', VInt 5) \<in> set asmOptions" "(''asm.nbytes'', VInt 10) \<in> set asmOptions"
    and o: "''scr.color'' \<notin> fst ` set asmOptions"
    by (simp_all add: asmOptions_def)
  have s: "settings ?c ''asm.tabs'' = Some (VInt 8)" "settings ?c ''asm.nbytes'' = None"
     "config (core ?c) ''scr.color'' = None"
    by (simp_all add: s_setValue_def freshConfiguration_def)
  note t1 = applySavedAsmOptions_idempotent [of ?c "''asm.tabs''" "VInt 5"]
  note t2 = applySavedAsmOptions_idempotent [of ?c "''asm.nbytes''" "VInt 10"]
  note t3 = applySavedAsmOptions_idempotent [of ?c "''scr.color''" "VInt 10"]
  have "config (core (applySavedAsmOptions ?c)) ''asm.tabs''
          = Some (case settings ?c ''asm.tabs'' of None \<Rightarrow> VInt 5 | Some v \<Rightarrow> v)"
    using t1 i(1) by blast
  then have a: "config (core (applySavedAsmOptions ?c)) ''asm.tabs'' = Some (VInt 8)"
    by (simp add: s(1))
  have "config (core (applySavedAsmOptions ?c)) ''asm.nbytes''
          = Some (case settings ?c ''asm.nbytes'' of None \<Rightarrow> VInt 10 | Some v \<Rightarrow> v)"
    using t2 i(2) by blast
  then have b: "config (core (applySavedAsmOptions ?c)) ''asm.nbytes'' = Some (VInt 10)"
    by (simp add: s(2))
  have "config (core (applySavedAsmOptions ?c)) ''scr.color'' = config (core ?c) ''scr.color''"
    using t3 o by blast
  then have c: "config (core (applySavedAsmOptions ?c)) ''scr.color'' = None"
    by (simp only: s(3))
  have d: "applySavedAsmOptions (applySavedAsmOptions ?c) = applySavedAsmOptions ?c"
    using t1 by (rule conjunct1)
  show ?thesis
    by (intro conjI i o a b c d)
qed

section \<open>Reading a colour\<close>

text \<open>
  C5. \<^verbatim>\<open>getColor(k)\<close> always returns a colour. When the durable store holds a value under
  \<^verbatim>\<open>colors.<k>\<close> the result is that value (read as a colour); when it holds none, the result
  is the value stored under \<^verbatim>\<open>colors.other\<close>, that is, what \<^verbatim>\<open>getColor("other")\<close> returns
  (the invalid colour if that key is missing as well).
\<close>

theorem getColor_fallback:
  "(settings c (''colors.'' @ k) = Some (VColor col) \<longrightarrow> getColor nc c k = col)
   \<and> (settings c (''colors.'' @ k) = Some v \<longrightarrow> getColor nc c k = toColor nc v)
   \<and> (settings c (''colors.'' @ k) = None \<longrightarrow>
        getColor nc c k = toColor nc (s_value c ''colors.other'' VInvalid)
        \<and> getColor nc c k = getColor nc c ''other'')
   \<and> (settings c (''colors.'' @ k) = None \<and> settings c ''colors.other'' = Some (VColor col) \<longrightarrow>
        getColor nc c k = col)
   \<and> (settings c (''colors.'' @ k) = None \<and> settings c ''colors.other'' = None \<longrightarrow>
        getColor nc c k = InvalidColor)"
  by (simp add: getColor_def s_contains_def s_value_def)

theorem getColor_fallback_witness:
  "settings (setColor ''other'' (Rgba 1 2 3 255) freshConfiguration) (''colors.'' @ ''gui.main'') = None
   \<and> settings (setColor ''other'' (Rgba 1 2 3 255) freshConfiguration) ''colors.other''
       = Some (VColor (Rgba 1 2 3 255))
   \<and> getColor (\<lambda>n. InvalidColor) (setColor ''other'' (Rgba 1 2 3 255) freshConfiguration) ''gui.main''
       = Rgba 1 2 3 255
   \<and> getColor (\<lambda>n. InvalidColor) (setColor ''other'' (Rgba 1 2 3 255) freshConfiguration) ''other''
       = Rgba 1 2 3 255"
  using getColor_fallback [of "setColor ''other'' (Rgba 1 2 3 255) freshConfiguration"
          "''gui.main''" "Rgba 1 2 3 255" "\<lambda>n. InvalidColor" VInvalid]
    getColor_fallback [of "setColor ''other'' (Rgba 1 2 3 255) freshConfiguration"
          "''other''" "Rgba 1 2 3 255" "\<lambda>n. InvalidColor" "VColor (Rgba 1 2 3 255)"]
  by (simp add: setColor_def s_setValue_def s_value_def freshConfiguration_def)

end
